theory Spec2Isabelle
  imports Main "HOL-Library.Multiset" "HOL-Library.AList"
begin

section \<open>Data model\<close>

text \<open>
  The comparison engine is the component \<open>github-release-stats\<close>; the time series are
  computed by the component \<open>chart-display\<close>. Both are TypeScript classes whose fields are
  mutated by event handlers; here every handler is a function from the state before to the
  state after, and every asynchronous handler is cut at its \<open>await\<close> into the part that
  runs before the requests are sent and the part that runs once they have settled.

  A timestamp is the number \<open>new Date(s).getTime()\<close> (milliseconds since the epoch) of a
  date string \<open>s\<close> as the hosting API delivers it; such a string is never empty, so it is
  truthy, and \<open>null\<close> is \<open>None\<close>.
\<close>

type_synonym timestamp = int

record star_event =
  starred_at :: timestamp

record issue_event =
  created_at :: timestamp
  closed_at :: "timestamp option"

text \<open>An element of a page of \<open>issues.listForRepo\<close>: pull requests carry \<open>pull_request\<close>.\<close>

record api_issue = issue_event +
  pull_request :: bool

text \<open>A chart point \<open>{x, y}\<close>, with the fields \<open>px\<close> and \<open>py\<close>.\<close>

record point =
  px :: int
  py :: int

datatype fetch_error = HttpError nat

text \<open>
  What the page iterator of \<open>octokit.paginate.iterator\<close> gives when it is advanced for the
  \<open>n\<close>-th time: the end of the collection, a rejected request, or a page of items.
\<close>

datatype 'a page_result = NoMorePages | PageFailed fetch_error | Page "'a list"

section \<open>Paginated collectors\<close>

definition MAX_STARGAZER_PAGES :: nat where
  "MAX_STARGAZER_PAGES = 10"

definition MAX_ISSUE_PAGES :: nat where
  "MAX_ISSUE_PAGES = 10"

text \<open>
  The \<open>for await\<close> loop of \<open>_fetchStargazers\<close>. \<open>pageCount\<close> pages have been consumed, so
  the iterator is advanced for the \<open>pageCount\<close>-th time. A rejected page request makes the
  whole call reject.
\<close>

function stargazersLoop ::
  "(nat \<Rightarrow> star_event page_result) \<Rightarrow> nat \<Rightarrow> star_event list \<Rightarrow> fetch_error + star_event list"
where
  "stargazersLoop iterator pageCount stargazers =
     (case iterator pageCount of
        NoMorePages \<Rightarrow> Inr stargazers
      | PageFailed e \<Rightarrow> Inl e
      | Page pageData \<Rightarrow>
          (if pageCount + 1 \<ge> MAX_STARGAZER_PAGES then Inr (stargazers @ pageData)
           else stargazersLoop iterator (pageCount + 1) (stargazers @ pageData)))"
  by pat_completeness auto
termination
  by (relation "measure (\<lambda>(iterator, pageCount, stargazers). MAX_STARGAZER_PAGES - pageCount)")
     auto

declare stargazersLoop.simps [simp del]

definition fetchStargazers ::
  "(nat \<Rightarrow> star_event page_result) \<Rightarrow> fetch_error + star_event list" where
  "fetchStargazers iterator = stargazersLoop iterator 0 []"

text \<open>The loop of \<open>_fetchIssues\<close>: pull requests are filtered out of every page.\<close>

definition issuesOnly :: "api_issue list \<Rightarrow> issue_event list" where
  "issuesOnly pageData =
     map (\<lambda>i. \<lparr>created_at = created_at i, closed_at = closed_at i\<rparr>)
       (filter (\<lambda>issue. \<not> pull_request issue) pageData)"

function issuesLoop ::
  "(nat \<Rightarrow> api_issue page_result) \<Rightarrow> nat \<Rightarrow> issue_event list \<Rightarrow> fetch_error + issue_event list"
where
  "issuesLoop iterator pageCount issues =
     (case iterator pageCount of
        NoMorePages \<Rightarrow> Inr issues
      | PageFailed e \<Rightarrow> Inl e
      | Page pageData \<Rightarrow>
          (if pageCount + 1 \<ge> MAX_ISSUE_PAGES then Inr (issues @ issuesOnly pageData)
           else issuesLoop iterator (pageCount + 1) (issues @ issuesOnly pageData)))"
  by pat_completeness auto
termination
  by (relation "measure (\<lambda>(iterator, pageCount, issues). MAX_ISSUE_PAGES - pageCount)") auto

declare issuesLoop.simps [simp del]

definition fetchIssues ::
  "(nat \<Rightarrow> api_issue page_result) \<Rightarrow> fetch_error + issue_event list" where
  "fetchIssues iterator = issuesLoop iterator 0 []"

section \<open>Sorting with a comparator\<close>

text \<open>
  \<open>Array.prototype.sort\<close> with a comparator is a stable sort: here by insertion, an
  element going in front of the first one that it does not have to follow.
\<close>

fun insertBy :: "('a \<Rightarrow> 'a \<Rightarrow> int) \<Rightarrow> 'a \<Rightarrow> 'a list \<Rightarrow> 'a list" where
  "insertBy cmp a [] = [a]"
| "insertBy cmp a (b # bs) = (if cmp a b \<le> 0 then a # b # bs else b # insertBy cmp a bs)"

definition sortBy :: "('a \<Rightarrow> 'a \<Rightarrow> int) \<Rightarrow> 'a list \<Rightarrow> 'a list" where
  "sortBy cmp xs = foldr (insertBy cmp) xs []"

section \<open>Time series of the charts\<close>

text \<open>
  \<open>_getStarChartConfig\<close>, the body of \<open>order.forEach\<close> for one repository: the events are
  sorted by the difference of their timestamps and numbered by the counter
  \<open>cumulativeStars\<close>. A repository with no entry or no event gets no dataset.
\<close>

fun cumulative :: "int \<Rightarrow> star_event list \<Rightarrow> point list" where
  "cumulative cumulativeStars [] = []"
| "cumulative cumulativeStars (event # events) =
     \<lparr>px = starred_at event, py = cumulativeStars + 1\<rparr> # cumulative (cumulativeStars + 1) events"

definition starData :: "star_event list \<Rightarrow> point list" where
  "starData starEvents =
     (let sortedEvents = sortBy (\<lambda>a b. starred_at a - starred_at b) starEvents
      in cumulative 0 sortedEvents)"

definition starDataset :: "star_event list option \<Rightarrow> point list option" where
  "starDataset entry =
     (case entry of
        None \<Rightarrow> None
      | Some starEvents \<Rightarrow> if starEvents = [] then None else Some (starData starEvents))"

text \<open>
  \<open>_getIssueChartConfig\<close>. \<open>eventsByTime\<close> is a JavaScript \<open>Map\<close>: \<open>set\<close> on a key that is
  present keeps its place, on a new key appends it, which is \<open>AList.update\<close>.
\<close>

definition bumpEvent :: "timestamp \<Rightarrow> int \<Rightarrow> (timestamp \<times> int) list \<Rightarrow> (timestamp \<times> int) list" where
  "bumpEvent time d eventsByTime =
     AList.update time ((case map_of eventsByTime time of None \<Rightarrow> 0 | Some v \<Rightarrow> v) + d) eventsByTime"

definition recordIssue :: "(timestamp \<times> int) list \<Rightarrow> issue_event \<Rightarrow> (timestamp \<times> int) list" where
  "recordIssue eventsByTime issue =
     (let m = bumpEvent (created_at issue) 1 eventsByTime
      in case closed_at issue of
           None \<Rightarrow> m
         | Some closedTime \<Rightarrow> bumpEvent closedTime (- 1) m)"

definition eventsByTime :: "issue_event list \<Rightarrow> (timestamp \<times> int) list" where
  "eventsByTime issues = foldl recordIssue [] issues"

fun sweep :: "(timestamp \<times> int) list \<Rightarrow> int \<Rightarrow> timestamp list \<Rightarrow> point list" where
  "sweep m openIssues [] = []"
| "sweep m openIssues (time # sortedTimes) =
     (let openIssues' = openIssues + (case map_of m time of None \<Rightarrow> 0 | Some d \<Rightarrow> d)
      in \<lparr>px = time, py = openIssues'\<rparr> # sweep m openIssues' sortedTimes)"

definition issueData :: "issue_event list \<Rightarrow> point list" where
  "issueData issues =
     (let m = eventsByTime issues;
          sortedTimes = sortBy (\<lambda>a b. a - b) (map fst m);
          start = (case sortedTimes of [] \<Rightarrow> [] | t0 # _ \<Rightarrow> [\<lparr>px = t0 - 1, py = 0\<rparr>])
      in start @ sweep m 0 sortedTimes)"

definition issueDataset :: "issue_event list option \<Rightarrow> point list option" where
  "issueDataset entry =
     (case entry of
        None \<Rightarrow> None
      | Some issues \<Rightarrow> if issues = [] then None else Some (issueData issues))"

section \<open>State of the comparison engine\<close>

record repo =
  username :: string
  repository :: string

definition repoIdentifier :: "repo \<Rightarrow> string" where
  "repoIdentifier r = username r @ ''/'' @ repository r"

text \<open>
  Modelled from the spec: the type \<open>GitHubRelease\<close> of \<open>types.ts\<close>, which is not among the
  sources (ReleaseRecord: tag, publication date, assets with size and download count);
  the fields are those that the engine reads, under the names it reads them by. The
  repository details are the fields read of the response of \<open>repos.get\<close>.
  \<open>asset_size\<close> and \<open>details_size\<close> are the fields \<open>size\<close> of an asset and of the
  repository details; \<open>sizeKB\<close> is the field \<open>size\<close> of a summary row. A falsy
  \<open>published_at\<close> is \<open>None\<close> or the empty string.
\<close>

record asset =
  asset_size :: nat
  download_count :: nat

record release =
  tag_name :: string
  published_at :: "string option"
  assets :: "asset list"

record repo_details =
  stargazers_count :: nat
  pushed_at :: string
  details_size :: nat
  open_issues_count :: nat

record RepoSummary =
  "identifier" :: string
  stars :: nat
  latestVersion :: string
  lastUpdate :: string
  sizeKB :: nat
  totalDownloads :: nat
  openIssues :: nat

datatype SortKey = Stars | LatestVersion | LastUpdate | Size | TotalDownloads | OpenIssues | Manual

datatype direction = Asc | Desc

text \<open>
  The \<open>@state()\<close> fields of \<open>GithubReleaseStats\<close>. A JavaScript \<open>Map\<close> (and the object
  \<open>_savedSets\<close>) is an association list in insertion order: \<open>set\<close> is \<open>AList.update\<close>,
  \<open>delete\<close> is \<open>AList.delete\<close>, \<open>get\<close> and \<open>has\<close> are \<open>map_of\<close>. \<open>urlRepos\<close> is the
  query parameter \<open>repos\<close> of the address bar.
\<close>

record engine =
  newUsername :: string
  newRepository :: string
  repos :: "repo list"
  releasesData :: "(string \<times> release list) list"
  downloadsData :: "(string \<times> nat) list"
  stargazersData :: "(string \<times> star_event list) list"
  issuesData :: "(string \<times> issue_event list) list"
  repoSummaryData :: "RepoSummary list"
  repoOrder :: "string list"
  chartMetric :: SortKey
  sortKey :: SortKey
  sortDirection :: direction
  loading :: bool
  error :: string
  authError :: string
  githubToken :: string
  savedSets :: "(string \<times> string list) list"
  urlRepos :: "string option"

text \<open>The field initialisers, with no stored credential, saved set or address parameter.\<close>

definition initial :: engine where
  "initial =
     \<lparr>newUsername = '''', newRepository = '''', repos = [], releasesData = [],
      downloadsData = [], stargazersData = [], issuesData = [], repoSummaryData = [],
      repoOrder = [], chartMetric = TotalDownloads, sortKey = TotalDownloads,
      sortDirection = Desc, loading = False, error = '''', authError = '''',
      githubToken = '''', savedSets = [], urlRepos = None\<rparr>"

text \<open>
  The requests a handler has sent when it returns or suspends: the batch of
  \<open>_fetchDataForRepos\<close> (two requests for each repository), and the lazy star and issue
  collectors of \<open>_handleRequestSort\<close>.
\<close>

datatype request = FetchBatch "repo list" | FetchStargazers "repo list" | FetchIssues "repo list"

text \<open>\<open>localize.t\<close>, from a message key to the message of the current language.\<close>

type_synonym localize = "string \<Rightarrow> string"

section \<open>Primary batch fetch\<close>

text \<open>
  \<open>Promise.all\<close>: fulfilled with all values when every promise is fulfilled, rejected when
  one is. The handlers never look at the reason of the rejection.
\<close>

fun promiseAll :: "(fetch_error + 'a) list \<Rightarrow> fetch_error + 'a list" where
  "promiseAll [] = Inr []"
| "promiseAll (Inl e # rs) = Inl e"
| "promiseAll (Inr v # rs) = (case promiseAll rs of Inl e \<Rightarrow> Inl e | Inr vs \<Rightarrow> Inr (v # vs))"

type_synonym repo_response = "(fetch_error + release list) \<times> (fetch_error + repo_details)"

definition pairAll :: "repo_response \<Rightarrow> fetch_error + (release list \<times> repo_details)" where
  "pairAll r =
     (case fst r of
        Inl e \<Rightarrow> Inl e
      | Inr releasesResponse \<Rightarrow>
          (case snd r of
             Inl e \<Rightarrow> Inl e
           | Inr repoDetailsResponse \<Rightarrow> Inr (releasesResponse, repoDetailsResponse)))"

definition published :: "release list \<Rightarrow> release list" where
  "published rs = filter (\<lambda>r. case published_at r of None \<Rightarrow> False | Some d \<Rightarrow> d \<noteq> '''') rs"

definition sumDownloads :: "release list \<Rightarrow> nat" where
  "sumDownloads releases =
     foldl (\<lambda>total release. total + foldl (\<lambda>sum asset. sum + download_count asset) 0 (assets release))
       0 releases"

text \<open>
  The body of \<open>results.forEach\<close>: the three collections under construction, and the result
  at an index paired with the repository that \<open>_repos\<close> holds at that index.
\<close>

definition addResult ::
  "localize \<Rightarrow>
   (string \<times> release list) list \<times> (string \<times> nat) list \<times> RepoSummary list \<Rightarrow>
   (release list \<times> repo_details) \<times> repo \<Rightarrow>
   (string \<times> release list) list \<times> (string \<times> nat) list \<times> RepoSummary list" where
  "addResult t acc res =
     (case acc of (newReleasesData, newDownloadsData, newSummaryData) \<Rightarrow>
      case res of ((releasesResponse, repoDetails), r) \<Rightarrow>
        (let releases = published releasesResponse;
             total = sumDownloads releases
         in (AList.update (repoIdentifier r) releases newReleasesData,
             AList.update (repoIdentifier r) total newDownloadsData,
             newSummaryData @
               [\<lparr>identifier = repoIdentifier r,
                 stars = stargazers_count repoDetails,
                 latestVersion =
                   (case releases of
                      [] \<Rightarrow> t ''common.notAvailable''
                    | r0 # _ \<Rightarrow> if tag_name r0 \<noteq> '''' then tag_name r0 else t ''common.notAvailable''),
                 lastUpdate = pushed_at repoDetails,
                 sizeKB = details_size repoDetails,
                 totalDownloads = total,
                 openIssues = open_issues_count repoDetails\<rparr>])))"

text \<open>
  \<open>_fetchDataForRepos\<close> up to its \<open>await\<close>, and from the \<open>await\<close> on. \<open>responses\<close> holds
  the outcome of the two requests of every repository of the batch, in the order of the
  batch. The second part runs on the state of the moment the requests have settled: it
  reads \<open>_repos\<close> then.
\<close>

definition fetchDataForRepos_start :: "engine \<Rightarrow> engine \<times> request list" where
  "fetchDataForRepos_start s = (s\<lparr>loading := True, error := ''''\<rparr>, [FetchBatch (repos s)])"

definition fetchDataForRepos_settled :: "localize \<Rightarrow> repo_response list \<Rightarrow> engine \<Rightarrow> engine" where
  "fetchDataForRepos_settled t responses s =
     (case promiseAll (map pairAll responses) of
        Inl e \<Rightarrow> s\<lparr>error := t ''errors.fetchRepoData'', loading := False\<rparr>
      | Inr results \<Rightarrow>
          (case foldl (addResult t) ([], [], []) (zip results (repos s)) of
             (newReleasesData, newDownloadsData, newSummaryData) \<Rightarrow>
               s\<lparr>releasesData := newReleasesData,
                 downloadsData := newDownloadsData,
                 repoSummaryData := newSummaryData,
                 repoOrder := map repoIdentifier (repos s),
                 loading := False\<rparr>))"

section \<open>Handlers\<close>

fun join :: "string \<Rightarrow> string list \<Rightarrow> string" where
  "join sep [] = []"
| "join sep [x] = x"
| "join sep (x # y # ys) = x @ sep @ join sep (y # ys)"

definition updateURL :: "engine \<Rightarrow> engine" where
  "updateURL s =
     s\<lparr>urlRepos := (if repoOrder s \<noteq> [] then Some (join '','' (repoOrder s)) else None)\<rparr>"

definition handleFormSubmit :: "engine \<Rightarrow> engine \<times> request list" where
  "handleFormSubmit s =
     (if newUsername s = '''' \<or> newRepository s = '''' then (s, [])
      else
        let newRepo = \<lparr>username = newUsername s, repository = newRepository s\<rparr>
        in if \<not> list_ex (\<lambda>r. username r = username newRepo \<and> repository r = repository newRepo) (repos s)
           then (case fetchDataForRepos_start (s\<lparr>repos := repos s @ [newRepo]\<rparr>) of
                   (s1, reqs) \<Rightarrow> ((updateURL s1)\<lparr>newRepository := ''''\<rparr>, reqs))
           else (s\<lparr>newRepository := ''''\<rparr>, []))"

text \<open>
  The intent add-repo: the input events of the form store the two texts in
  \<open>_newUsername\<close> and \<open>_newRepository\<close>, then the form is submitted.
\<close>

definition addRepo :: "string \<Rightarrow> string \<Rightarrow> engine \<Rightarrow> engine \<times> request list" where
  "addRepo u r s = handleFormSubmit (s\<lparr>newUsername := u, newRepository := r\<rparr>)"

definition handleRemoveRepo :: "repo \<Rightarrow> engine \<Rightarrow> engine" where
  "handleRemoveRepo repoToRemove s =
     (let rid = repoIdentifier repoToRemove
      in updateURL
           (s\<lparr>repos := filter (\<lambda>r. repoIdentifier r \<noteq> rid) (repos s),
              repoOrder := filter (\<lambda>i. i \<noteq> rid) (repoOrder s),
              releasesData := AList.delete rid (releasesData s),
              downloadsData := AList.delete rid (downloadsData s),
              stargazersData := AList.delete rid (stargazersData s),
              issuesData := AList.delete rid (issuesData s),
              repoSummaryData := filter (\<lambda>d. identifier d \<noteq> rid) (repoSummaryData s)\<rparr>))"

definition setNewOrder :: "string list \<Rightarrow> engine \<Rightarrow> engine" where
  "setNewOrder newOrder s = updateURL (s\<lparr>repoOrder := newOrder, sortKey := Manual\<rparr>)"

section \<open>Sort requests\<close>

text \<open>
  The value \<open>a[newSortKey]\<close> of a summary row: a number or a string; no row has a field
  \<open>manual\<close>. \<open>>\<close> and \<open><\<close> compare two numbers by size and two strings by their code
  units; a comparison with \<open>undefined\<close> is false (two values of one column always have
  one type).
\<close>

datatype sort_value = Num nat | Str string | Undefined

fun sortField :: "SortKey \<Rightarrow> RepoSummary \<Rightarrow> sort_value" where
  "sortField Stars d = Num (stars d)"
| "sortField LatestVersion d = Str (latestVersion d)"
| "sortField LastUpdate d = Str (lastUpdate d)"
| "sortField Size d = Num (sizeKB d)"
| "sortField TotalDownloads d = Num (totalDownloads d)"
| "sortField OpenIssues d = Num (openIssues d)"
| "sortField Manual d = Undefined"

fun strLess :: "string \<Rightarrow> string \<Rightarrow> bool" where
  "strLess [] [] = False"
| "strLess [] (b # bs) = True"
| "strLess (a # as) [] = False"
| "strLess (a # as) (b # bs) =
     (if (of_char a :: nat) < of_char b then True
      else if (of_char b :: nat) < of_char a then False
      else strLess as bs)"

fun jsGreater :: "sort_value \<Rightarrow> sort_value \<Rightarrow> bool" where
  "jsGreater (Num a) (Num b) = (b < a)"
| "jsGreater (Str a) (Str b) = strLess b a"
| "jsGreater _ _ = False"

definition compareRows :: "SortKey \<Rightarrow> direction \<Rightarrow> RepoSummary \<Rightarrow> RepoSummary \<Rightarrow> int" where
  "compareRows newSortKey newSortDirection a b =
     (let valA = sortField newSortKey a;
          valB = sortField newSortKey b;
          comparison = (if jsGreater valA valB then 1 else if jsGreater valB valA then - 1 else 0)
      in if newSortDirection = Asc then comparison else - comparison)"

definition missingFrom :: "(string \<times> 'a) list \<Rightarrow> repo list \<Rightarrow> repo list" where
  "missingFrom cache rs = filter (\<lambda>r. map_of cache (repoIdentifier r) = None) rs"

text \<open>
  \<open>_handleRequestSort\<close> up to its \<open>await\<close>. Without a request it has run to its end.
\<close>

definition handleRequestSort :: "localize \<Rightarrow> SortKey \<Rightarrow> engine \<Rightarrow> engine \<times> request list" where
  "handleRequestSort t newSortKey s0 =
     (let s = s0\<lparr>authError := ''''\<rparr>
      in if (newSortKey = Stars \<or> newSortKey = OpenIssues) \<and> githubToken s = ''''
         then (s\<lparr>authError := t ''errors.authRequired''\<rparr>, [])
         else if newSortKey = Manual then (s, [])
         else
           let newSortDirection =
                 (if sortKey s = newSortKey
                  then (if sortDirection s = Asc then Desc else Asc)
                  else (if newSortKey = LatestVersion \<or> newSortKey = LastUpdate then Asc else Desc));
               sorted = sortBy (compareRows newSortKey newSortDirection) (repoSummaryData s);
               s1 = updateURL
                      (s\<lparr>sortKey := newSortKey, sortDirection := newSortDirection,
                         chartMetric := newSortKey, repoOrder := map identifier sorted\<rparr>)
           in if newSortKey = Stars
              then (let reposToFetch = missingFrom (stargazersData s1) (repos s1)
                    in if reposToFetch \<noteq> [] then (s1\<lparr>loading := True\<rparr>, [FetchStargazers reposToFetch])
                       else (s1, []))
              else if newSortKey = OpenIssues
              then (let reposToFetch = missingFrom (issuesData s1) (repos s1)
                    in if reposToFetch \<noteq> [] then (s1\<lparr>loading := True\<rparr>, [FetchIssues reposToFetch])
                       else (s1, []))
              else (s1, []))"

text \<open>
  \<open>_handleRequestSort\<close> from the \<open>await\<close> on: \<open>results\<close> holds what \<open>_fetchStargazers\<close>
  (\<open>_fetchIssues\<close>) gave for every repository of \<open>reposToFetch\<close>, in that order.
\<close>

definition mergeResults :: "(string \<times> 'a) list \<Rightarrow> ('a \<times> repo) list \<Rightarrow> (string \<times> 'a) list" where
  "mergeResults cache rs = foldl (\<lambda>m (v, r). AList.update (repoIdentifier r) v m) cache rs"

definition stargazers_settled ::
  "localize \<Rightarrow> repo list \<Rightarrow> (fetch_error + star_event list) list \<Rightarrow> engine \<Rightarrow> engine" where
  "stargazers_settled t reposToFetch results s =
     (case promiseAll results of
        Inl e \<Rightarrow> s\<lparr>error := t ''errors.fetchStarHistory'', loading := False\<rparr>
      | Inr vs \<Rightarrow>
          s\<lparr>stargazersData := mergeResults (stargazersData s) (zip vs reposToFetch),
            loading := False\<rparr>)"

definition issues_settled ::
  "localize \<Rightarrow> repo list \<Rightarrow> (fetch_error + issue_event list) list \<Rightarrow> engine \<Rightarrow> engine" where
  "issues_settled t reposToFetch results s =
     (case promiseAll results of
        Inl e \<Rightarrow> s\<lparr>error := t ''errors.fetchIssueHistory'', loading := False\<rparr>
      | Inr vs \<Rightarrow>
          s\<lparr>issuesData := mergeResults (issuesData s) (zip vs reposToFetch),
            loading := False\<rparr>)"

section \<open>Clearing, saved sets and the credential\<close>

text \<open>\<open>clearAction\<close> of \<open>_handleClearAllRepos\<close>, which runs once the user has confirmed.\<close>

definition clearAction :: "engine \<Rightarrow> engine" where
  "clearAction s =
     updateURL
       (s\<lparr>repos := [], releasesData := [], downloadsData := [], stargazersData := [],
          issuesData := [], repoSummaryData := [], repoOrder := [], error := '''',
          authError := ''''\<rparr>)"

text \<open>\<open>setName\<close> is the trimmed text of the input field.\<close>

definition handleSaveSetConfirm :: "string \<Rightarrow> engine \<Rightarrow> engine" where
  "handleSaveSetConfirm setName s =
     (if setName \<noteq> ''''
      then s\<lparr>savedSets := AList.update setName (map repoIdentifier (repos s)) (savedSets s)\<rparr>
      else s)"

text \<open>\<open>String.prototype.split\<close> at one character: never an empty list.\<close>

fun splitOn :: "char \<Rightarrow> string \<Rightarrow> string list" where
  "splitOn c [] = [[]]"
| "splitOn c (x # xs) =
     (if x = c then [] # splitOn c xs
      else (case splitOn c xs of [] \<Rightarrow> [[x]] | w # ws \<Rightarrow> (x # w) # ws))"

definition parseRepo :: "string \<Rightarrow> repo option" where
  "parseRepo r =
     (case splitOn (CHR ''/'') r of
        u # p # _ \<Rightarrow> if u \<noteq> '''' \<and> p \<noteq> '''' then Some \<lparr>username = u, repository = p\<rparr> else None
      | _ \<Rightarrow> None)"

definition handleLoadSet :: "string \<Rightarrow> engine \<Rightarrow> engine \<times> request list" where
  "handleLoadSet setName s =
     (case map_of (savedSets s) setName of
        None \<Rightarrow> (s, [])
      | Some repoIdentifiers \<Rightarrow>
          (case fetchDataForRepos_start (s\<lparr>repos := List.map_filter parseRepo repoIdentifiers\<rparr>) of
             (s1, reqs) \<Rightarrow> (updateURL s1, reqs)))"

definition updateAuthToken :: "string \<Rightarrow> engine \<Rightarrow> engine \<times> request list" where
  "updateAuthToken token s =
     (let s1 = s\<lparr>githubToken := token\<rparr>
      in if repos s1 \<noteq> [] then fetchDataForRepos_start s1 else (s1, []))"

section \<open>CSV export\<close>

text \<open>\<open>String(n)\<close> of a count (below \<open>10\<^sup>2\<^sup>1\<close>): its decimal digits.\<close>

function showNat :: "nat \<Rightarrow> string" where
  "showNat n = (if n < 10 then [''0123456789'' ! n] else showNat (n div 10) @ [''0123456789'' ! (n mod 10)])"
  by pat_completeness auto
termination
  by (relation "measure (\<lambda>n. n)") auto

declare showNat.simps [simp del]

definition escapeCsv :: "string \<Rightarrow> string" where
  "escapeCsv s =
     (if CHR '','' \<in> set s \<or> CHR 0x22 \<in> set s \<or> CHR 0x0A \<in> set s
      then [CHR 0x22] @ concat (map (\<lambda>c. if c = CHR 0x22 then [CHR 0x22, CHR 0x22] else [c]) s) @ [CHR 0x22]
      else s)"

definition csvHeaders :: "string list" where
  "csvHeaders =
     [''Repository'', ''Stars'', ''Latest Version'', ''Last Update'', ''Size (KB)'', ''Total Downloads'']"

definition csvRow :: "RepoSummary \<Rightarrow> string" where
  "csvRow d =
     join '',''
       [escapeCsv (identifier d), showNat (stars d), escapeCsv (latestVersion d), lastUpdate d,
        showNat (sizeKB d), showNat (totalDownloads d)]"

text \<open>
  \<open>_handleExportCsv\<close>: the text of the file that is offered for download, \<open>None\<close> when the
  handler returns without one.
\<close>

definition handleExportCsv :: "engine \<Rightarrow> string option" where
  "handleExportCsv s =
     (if repoSummaryData s = [] then None
      else
        let sortedData =
              List.map_filter (\<lambda>i. find (\<lambda>d. identifier d = i) (repoSummaryData s)) (repoOrder s);
            rows = map csvRow sortedData
        in Some (join [CHR 0x0A] (join '','' csvHeaders # rows)))"

section \<open>Notions used to state the properties\<close>

text \<open>The items of the page that the iterator gives at its \<open>k\<close>-th advance.\<close>

definition pageItems :: "(nat \<Rightarrow> 'a page_result) \<Rightarrow> nat \<Rightarrow> 'a list" where
  "pageItems iterator k = (case iterator k of Page pageData \<Rightarrow> pageData | _ \<Rightarrow> [])"

text \<open>
  The open-issue series as the specification words it: every issue gives \<open>+1\<close> at its
  creation and \<open>-1\<close> at its closing; the deltas of one timestamp are merged into a net
  delta; the distinct timestamps are sorted; the series is the running sum of the net
  deltas, after a point one millisecond before the first timestamp at height zero.
\<close>

definition eventTimesList :: "issue_event list \<Rightarrow> timestamp list" where
  "eventTimesList issues =
     concat (map (\<lambda>i. created_at i # (case closed_at i of None \<Rightarrow> [] | Some c \<Rightarrow> [c])) issues)"

definition netDelta :: "issue_event list \<Rightarrow> timestamp \<Rightarrow> int" where
  "netDelta issues t =
     int (length (filter (\<lambda>i. created_at i = t) issues)) -
     int (length (filter (\<lambda>i. closed_at i = Some t) issues))"

definition sweepLineSpec :: "issue_event list \<Rightarrow> point list" where
  "sweepLineSpec issues =
     (let ts = sort (remdups (eventTimesList issues))
      in (case ts of [] \<Rightarrow> [] | t0 # _ \<Rightarrow> [\<lparr>px = t0 - 1, py = 0\<rparr>]) @
         map (\<lambda>k. \<lparr>px = ts ! k, py = sum_list (map (netDelta issues) (take (Suc k) ts))\<rparr>)
           [0..<length ts])"

text \<open>
  The height of the stepped line (\<open>stepped: true\<close>) at a time: the \<open>y\<close> of the last point
  at or before it.
\<close>

definition openCountAt :: "point list \<Rightarrow> timestamp \<Rightarrow> int option" where
  "openCountAt data t =
     (case filter (\<lambda>p. px p \<le> t) data of [] \<Rightarrow> None | p # ps \<Rightarrow> Some (py (last (p # ps))))"

text \<open>\<open>eventsByTime.get(time) ?? 0\<close>.\<close>

definition deltaAt :: "(timestamp \<times> int) list \<Rightarrow> timestamp \<Rightarrow> int" where
  "deltaAt m t = (case map_of m t of None \<Rightarrow> 0 | Some d \<Rightarrow> d)"

text \<open>One of the two requests of a repository has been rejected.\<close>

definition requestFailed :: "repo_response \<Rightarrow> bool" where
  "requestFailed r = (isl (fst r) \<or> isl (snd r))"

text \<open>
  The states in which every primary batch fetch has been committed: those reached from
  the initial state by the intents of the rendering layer, where the batch that an intent
  sends settles without a rejected request, with one response for each repository of
  the batch, before the next intent. The supplemental fetches may settle in any way. A
  drag of the repository pills gives a rearrangement of the display order, and the
  remove button of a pill belongs to a repository of \<open>_repos\<close>.
\<close>

inductive committed :: "localize \<Rightarrow> engine \<Rightarrow> bool" for t :: localize where
  start: "committed t initial"
| add_nothing:
    "committed t s \<Longrightarrow> snd (addRepo u r s) = [] \<Longrightarrow> committed t (fst (addRepo u r s))"
| add_fetched:
    "committed t s \<Longrightarrow> snd (addRepo u r s) = [FetchBatch batch] \<Longrightarrow>
     length responses = length batch \<Longrightarrow> \<not> list_ex requestFailed responses \<Longrightarrow>
     committed t (fetchDataForRepos_settled t responses (fst (addRepo u r s)))"
| remove:
    "committed t s \<Longrightarrow> list_ex (\<lambda>x. x = r) (repos s) \<Longrightarrow> committed t (handleRemoveRepo r s)"
| sort: "committed t s \<Longrightarrow> committed t (fst (handleRequestSort t k s))"
| stars_settled: "committed t s \<Longrightarrow> committed t (stargazers_settled t rs starResults s)"
| issues_settled: "committed t s \<Longrightarrow> committed t (issues_settled t rs issueResults s)"
| reorder:
    "committed t s \<Longrightarrow> mset newOrder = mset (repoOrder s) \<Longrightarrow> committed t (setNewOrder newOrder s)"
| clear: "committed t s \<Longrightarrow> committed t (clearAction s)"
| save: "committed t s \<Longrightarrow> committed t (handleSaveSetConfirm setName s)"
| load_nothing:
    "committed t s \<Longrightarrow> snd (handleLoadSet setName s) = [] \<Longrightarrow>
     committed t (fst (handleLoadSet setName s))"
| load_fetched:
    "committed t s \<Longrightarrow> snd (handleLoadSet setName s) = [FetchBatch batch] \<Longrightarrow>
     length responses = length batch \<Longrightarrow> \<not> list_ex requestFailed responses \<Longrightarrow>
     committed t (fetchDataForRepos_settled t responses (fst (handleLoadSet setName s)))"
| token_nothing:
    "committed t s \<Longrightarrow> snd (updateAuthToken token s) = [] \<Longrightarrow>
     committed t (fst (updateAuthToken token s))"
| token_fetched:
    "committed t s \<Longrightarrow> snd (updateAuthToken token s) = [FetchBatch batch] \<Longrightarrow>
     length responses = length batch \<Longrightarrow> \<not> list_ex requestFailed responses \<Longrightarrow>
     committed t (fetchDataForRepos_settled t responses (fst (updateAuthToken token s)))"

text \<open>A repository name that the identifier \<open>owner/name\<close> can be split back into.\<close>

definition plainName :: "string \<Rightarrow> bool" where
  "plainName n = (n \<noteq> '''' \<and> CHR ''/'' \<notin> set n)"

text \<open>
  Example data: a fulfilled pair of responses (no release), and the state after
  \<open>a/x\<close> and \<open>b/y\<close> have been added, each batch fulfilled.
\<close>

definition okResponse :: repo_response where
  "okResponse =
     (Inr [], Inr \<lparr>stargazers_count = 1, pushed_at = ''2024-01-01T00:00:00Z'', details_size = 1,
                   open_issues_count = 0\<rparr>)"

definition twoRepos :: engine where
  "twoRepos =
     fetchDataForRepos_settled (\<lambda>k. k) [okResponse, okResponse]
       (fst (addRepo ''b'' ''y''
          (fetchDataForRepos_settled (\<lambda>k. k) [okResponse] (fst (addRepo ''a'' ''x'' initial)))))"

text \<open>
  The state after \<open>a/x\<close> and then \<open>b/y\<close> have been added while the batch of \<open>a/x\<close> was
  still in flight, the later batch settling first and the earlier one last.
\<close>

definition staleBatch :: engine where
  "staleBatch =
     fetchDataForRepos_settled (\<lambda>k. k) [okResponse]
       (fetchDataForRepos_settled (\<lambda>k. k) [okResponse, okResponse]
          (fst (addRepo ''b'' ''y'' (fst (addRepo ''a'' ''x'' initial)))))"

text \<open>
  The CSV rule of the specification: a field with a comma, a double quote or a newline
  is wrapped in double quotes, its double quotes doubled; a row is its six fields under
  that rule, joined by commas.
\<close>

definition needsQuoting :: "string \<Rightarrow> bool" where
  "needsQuoting s = (CHR '','' \<in> set s \<or> CHR 0x22 \<in> set s \<or> CHR 0x0A \<in> set s)"

definition csvField :: "string \<Rightarrow> string" where
  "csvField s =
     (if needsQuoting s
      then CHR 0x22 # concat (map (\<lambda>c. if c = CHR 0x22 then [CHR 0x22, CHR 0x22] else [c]) s) @ [CHR 0x22]
      else s)"

definition specRow :: "RepoSummary \<Rightarrow> string" where
  "specRow d =
     csvField (identifier d) @ '','' @ csvField (showNat (stars d)) @ '','' @
     csvField (latestVersion d) @ '','' @ csvField (lastUpdate d) @ '','' @
     csvField (showNat (sizeKB d)) @ '','' @ csvField (showNat (totalDownloads d))"

text \<open>
  The display order and the summary rows hold the identifiers of \<open>_repos\<close>, each as often
  as \<open>_repos\<close> does.
\<close>

definition aligned :: "engine \<Rightarrow> bool" where
  "aligned s =
     (mset (repoOrder s) = mset (map repoIdentifier (repos s)) \<and>
      mset (map identifier (repoSummaryData s)) = mset (map repoIdentifier (repos s)))"

text \<open>
  Example states: \<open>a/x\<close> added and its batch rejected; the two repositories dragged into
  the order \<open>b/y\<close>, \<open>a/x\<close>; the two repositories with a credential stored.
\<close>

definition failedAdd :: engine where
  "failedAdd =
     fetchDataForRepos_settled (\<lambda>k. k) [(Inl (HttpError 404), Inl (HttpError 404))]
       (fst (addRepo ''a'' ''x'' initial))"

definition reordered :: engine where
  "reordered = setNewOrder [''b/y'', ''a/x''] twoRepos"

definition withToken :: engine where
  "withToken =
     fetchDataForRepos_settled (\<lambda>k. k) [okResponse, okResponse]
       (fst (updateAuthToken ''token'' twoRepos))"

text \<open>
  The sequence save-set, clear-all, load-set under one name, the batch of the load settled
  with \<open>responses\<close>.
\<close>

definition saveClearLoad :: "localize \<Rightarrow> string \<Rightarrow> repo_response list \<Rightarrow> engine \<Rightarrow> engine" where
  "saveClearLoad t setName responses s =
     fetchDataForRepos_settled t responses
       (fst (handleLoadSet setName (clearAction (handleSaveSetConfirm setName s))))"

section \<open>Lemmas\<close>

lemma stargazersLoop_pages:
  "pc < 10 \<Longrightarrow> pc \<le> n \<Longrightarrow> n \<le> 10 \<Longrightarrow> (\<forall>k. pc \<le> k \<and> k < n \<longrightarrow> (\<exists>p. it k = Page p)) \<Longrightarrow>
   n = 10 \<or> it n = NoMorePages \<Longrightarrow>
   stargazersLoop it pc acc = Inr (acc @ concat (map (pageItems it) [pc..<n]))"
proof (induction it pc acc rule: stargazersLoop.induct)
  case (1 it pc acc)
  show ?case
  proof (cases "pc = n")
    case True
    with "1.prems" have "it pc = NoMorePages" by auto
    with True show ?thesis by (simp add: stargazersLoop.simps)
  next
    case False
    with "1.prems" have lt: "pc < n" by simp
    with "1.prems" obtain p where p: "it pc = Page p" by auto
    have up: "[pc..<n] = pc # [Suc pc..<n]" using lt by (simp add: upt_conv_Cons)
    show ?thesis
    proof (cases "pc + 1 \<ge> MAX_STARGAZER_PAGES")
      case True
      with lt "1.prems" have "n = Suc pc" by (simp add: MAX_STARGAZER_PAGES_def)
      with True p show ?thesis
        by (simp add: stargazersLoop.simps [of it pc] pageItems_def)
    next
      case F: False
      have "stargazersLoop it (pc + 1) (acc @ p) =
            Inr ((acc @ p) @ concat (map (pageItems it) [pc + 1..<n]))"
        using "1.IH" [OF p F] "1.prems" lt F by (simp add: MAX_STARGAZER_PAGES_def)
      moreover have "pageItems it pc = p" using p by (simp add: pageItems_def)
      ultimately show ?thesis using F p up
        by (simp add: stargazersLoop.simps [of it pc])
    qed
  qed
qed

lemma stargazersLoop_cong:
  "pc < 10 \<Longrightarrow> \<forall>k<10. it k = it' k \<Longrightarrow> stargazersLoop it pc acc = stargazersLoop it' pc acc"
proof (induction it pc acc rule: stargazersLoop.induct)
  case (1 it pc acc)
  from "1.prems" have e: "it' pc = it pc" by simp
  show ?case
  proof (cases "it pc")
    case (Page p)
    show ?thesis
    proof (cases "MAX_STARGAZER_PAGES \<le> pc + 1")
      case True
      with Page e show ?thesis
        by (simp add: stargazersLoop.simps [of it pc] stargazersLoop.simps [of it' pc])
    next
      case False
      then have "pc + 1 < 10" by (simp add: MAX_STARGAZER_PAGES_def)
      from "1.IH" [OF Page False this "1.prems"(2)] Page e False show ?thesis
        by (simp add: stargazersLoop.simps [of it pc] stargazersLoop.simps [of it' pc])
    qed
  qed (use e in \<open>simp_all add: stargazersLoop.simps [of it pc] stargazersLoop.simps [of it' pc]\<close>)
qed

lemma stargazersLoop_length:
  "pc < 10 \<Longrightarrow> \<forall>k p. it k = Page p \<longrightarrow> length p \<le> 100 \<Longrightarrow> stargazersLoop it pc acc = Inr xs \<Longrightarrow>
   length xs \<le> length acc + 100 * (10 - pc)"
proof (induction it pc acc rule: stargazersLoop.induct)
  case (1 it pc acc)
  show ?case
  proof (cases "it pc")
    case NoMorePages
    with "1.prems" show ?thesis by (simp add: stargazersLoop.simps [of it pc])
  next
    case (PageFailed e)
    with "1.prems" show ?thesis by (simp add: stargazersLoop.simps [of it pc])
  next
    case (Page p)
    with "1.prems" have lp: "length p \<le> 100" by blast
    show ?thesis
    proof (cases "MAX_STARGAZER_PAGES \<le> pc + 1")
      case True
      with Page "1.prems" have "xs = acc @ p"
        by (simp add: stargazersLoop.simps [of it pc])
      with lp "1.prems"(1) show ?thesis by simp
    next
      case False
      then have lt: "pc + 1 < 10" by (simp add: MAX_STARGAZER_PAGES_def)
      from Page False "1.prems" have "stargazersLoop it (pc + 1) (acc @ p) = Inr xs"
        by (simp add: stargazersLoop.simps [of it pc])
      from "1.IH" [OF Page False lt "1.prems"(2) this] lp lt show ?thesis by simp
    qed
  qed
qed

lemma issuesLoop_pages:
  "pc < 10 \<Longrightarrow> pc \<le> n \<Longrightarrow> n \<le> 10 \<Longrightarrow> (\<forall>k. pc \<le> k \<and> k < n \<longrightarrow> (\<exists>p. it k = Page p)) \<Longrightarrow>
   n = 10 \<or> it n = NoMorePages \<Longrightarrow>
   issuesLoop it pc acc = Inr (acc @ concat (map (\<lambda>k. issuesOnly (pageItems it k)) [pc..<n]))"
proof (induction it pc acc rule: issuesLoop.induct)
  case (1 it pc acc)
  show ?case
  proof (cases "pc = n")
    case True
    with "1.prems" have "it pc = NoMorePages" by auto
    with True show ?thesis by (simp add: issuesLoop.simps)
  next
    case False
    with "1.prems" have lt: "pc < n" by simp
    with "1.prems" obtain p where p: "it pc = Page p" by auto
    have up: "[pc..<n] = pc # [Suc pc..<n]" using lt by (simp add: upt_conv_Cons)
    show ?thesis
    proof (cases "pc + 1 \<ge> MAX_ISSUE_PAGES")
      case True
      with lt "1.prems" have "n = Suc pc" by (simp add: MAX_ISSUE_PAGES_def)
      with True p show ?thesis
        by (simp add: issuesLoop.simps [of it pc] pageItems_def)
    next
      case F: False
      have "issuesLoop it (pc + 1) (acc @ issuesOnly p) =
            Inr ((acc @ issuesOnly p) @ concat (map (\<lambda>k. issuesOnly (pageItems it k)) [pc + 1..<n]))"
        using "1.IH" [OF p F] "1.prems" lt F by (simp add: MAX_ISSUE_PAGES_def)
      moreover have "pageItems it pc = p" using p by (simp add: pageItems_def)
      ultimately show ?thesis using F p up
        by (simp add: issuesLoop.simps [of it pc])
    qed
  qed
qed

lemma issuesLoop_cong:
  "pc < 10 \<Longrightarrow> \<forall>k<10. it k = it' k \<Longrightarrow> issuesLoop it pc acc = issuesLoop it' pc acc"
proof (induction it pc acc rule: issuesLoop.induct)
  case (1 it pc acc)
  from "1.prems" have e: "it' pc = it pc" by simp
  show ?case
  proof (cases "it pc")
    case (Page p)
    show ?thesis
    proof (cases "MAX_ISSUE_PAGES \<le> pc + 1")
      case True
      with Page e show ?thesis
        by (simp add: issuesLoop.simps [of it pc] issuesLoop.simps [of it' pc])
    next
      case False
      then have "pc + 1 < 10" by (simp add: MAX_ISSUE_PAGES_def)
      from "1.IH" [OF Page False this "1.prems"(2)] Page e False show ?thesis
        by (simp add: issuesLoop.simps [of it pc] issuesLoop.simps [of it' pc])
    qed
  qed (use e in \<open>simp_all add: issuesLoop.simps [of it pc] issuesLoop.simps [of it' pc]\<close>)
qed

lemma issuesLoop_length:
  "pc < 10 \<Longrightarrow> \<forall>k p. it k = Page p \<longrightarrow> length p \<le> 100 \<Longrightarrow> issuesLoop it pc acc = Inr xs \<Longrightarrow>
   length xs \<le> length acc + 100 * (10 - pc)"
proof (induction it pc acc rule: issuesLoop.induct)
  case (1 it pc acc)
  show ?case
  proof (cases "it pc")
    case NoMorePages
    with "1.prems" show ?thesis by (simp add: issuesLoop.simps [of it pc])
  next
    case (PageFailed e)
    with "1.prems" show ?thesis by (simp add: issuesLoop.simps [of it pc])
  next
    case (Page p)
    with "1.prems" have "length p \<le> 100" by blast
    then have lp: "length (issuesOnly p) \<le> 100"
      using le_trans [OF length_filter_le [of "\<lambda>issue. \<not> pull_request issue" p]]
      by (simp add: issuesOnly_def)
    show ?thesis
    proof (cases "MAX_ISSUE_PAGES \<le> pc + 1")
      case True
      with Page "1.prems" have "xs = acc @ issuesOnly p"
        by (simp add: issuesLoop.simps [of it pc])
      with lp "1.prems"(1) show ?thesis by simp
    next
      case False
      then have lt: "pc + 1 < 10" by (simp add: MAX_ISSUE_PAGES_def)
      from Page False "1.prems" have "issuesLoop it (pc + 1) (acc @ issuesOnly p) = Inr xs"
        by (simp add: issuesLoop.simps [of it pc])
      from "1.IH" [OF Page False lt "1.prems"(2) this] lp lt show ?thesis by simp
    qed
  qed
qed

lemma insertBy_difference: "insertBy (\<lambda>a b. f a - f b) x xs = insort_key f x xs"
  for f :: "'a \<Rightarrow> int"
  by (induction xs) simp_all

lemma sortBy_difference: "sortBy (\<lambda>a b. f a - f b) xs = sort_key f xs"
  for f :: "'a \<Rightarrow> int"
  by (induction xs) (simp_all add: sortBy_def insertBy_difference)

lemma sortBy_ascending: "sortBy (\<lambda>a b. a - b) xs = sort xs"
  for xs :: "int list"
  using sortBy_difference [of "\<lambda>x. x" xs] by simp

lemma cumulative_length: "length (cumulative c es) = length es"
  by (induction es arbitrary: c) simp_all

lemma cumulative_px: "map px (cumulative c es) = map starred_at es"
  by (induction es arbitrary: c) simp_all

lemma cumulative_py: "map py (cumulative c es) = [c + 1..c + int (length es)]"
proof (induction es arbitrary: c)
  case Nil
  show ?case by simp
next
  case (Cons e es)
  have "[c + 1..c + int (length (e # es))] = (c + 1) # [c + 1 + 1..c + 1 + int (length es)]"
    by (subst upto_rec1) (simp_all add: algebra_simps)
  with Cons.IH [of "c + 1"] show ?case by simp
qed

lemma deltaAt_bumpEvent:
  "deltaAt (bumpEvent time d m) t = deltaAt m t + (if t = time then d else 0)"
  by (simp add: deltaAt_def bumpEvent_def update_conv')

lemma keys_bumpEvent: "fst ` set (bumpEvent time d m) = insert time (fst ` set m)"
  by (simp add: bumpEvent_def dom_update)

lemma distinct_bumpEvent: "distinct (map fst m) \<Longrightarrow> distinct (map fst (bumpEvent time d m))"
  by (simp add: bumpEvent_def distinct_update)

lemma deltaAt_recordIssue:
  "deltaAt (recordIssue m i) t = deltaAt m t + netDelta [i] t"
  by (cases "closed_at i") (auto simp: recordIssue_def Let_def deltaAt_bumpEvent netDelta_def)

lemma keys_recordIssue:
  "fst ` set (recordIssue m i) = fst ` set m \<union> set (eventTimesList [i])"
  by (cases "closed_at i") (auto simp: recordIssue_def Let_def keys_bumpEvent eventTimesList_def)

lemma distinct_recordIssue: "distinct (map fst m) \<Longrightarrow> distinct (map fst (recordIssue m i))"
  by (cases "closed_at i") (simp_all add: recordIssue_def Let_def distinct_bumpEvent)

lemma netDelta_Cons: "netDelta (i # issues) t = netDelta [i] t + netDelta issues t"
  by (simp add: netDelta_def)

lemma eventTimesList_Cons:
  "set (eventTimesList (i # issues)) = set (eventTimesList [i]) \<union> set (eventTimesList issues)"
  by (simp add: eventTimesList_def)

lemma foldl_recordIssue:
  "deltaAt (foldl recordIssue m issues) t = deltaAt m t + netDelta issues t \<and>
   fst ` set (foldl recordIssue m issues) = fst ` set m \<union> set (eventTimesList issues) \<and>
   (distinct (map fst m) \<longrightarrow> distinct (map fst (foldl recordIssue m issues)))"
proof (induction issues arbitrary: m)
  case Nil
  show ?case by (simp add: netDelta_def eventTimesList_def)
next
  case (Cons i issues)
  from Cons.IH [of "recordIssue m i"] show ?case
    by (simp add: deltaAt_recordIssue keys_recordIssue distinct_recordIssue
        netDelta_Cons [of i issues] eventTimesList_Cons [of i issues] Un_assoc)
qed

lemma deltaAt_eventsByTime: "deltaAt (eventsByTime issues) = netDelta issues"
  using foldl_recordIssue [of "[]" issues] by (auto simp: eventsByTime_def deltaAt_def)

lemma sortedTimes_eventsByTime:
  "sort (map fst (eventsByTime issues)) = sort (remdups (eventTimesList issues))"
proof (rule sorted_distinct_set_unique)
  show "distinct (sort (map fst (eventsByTime issues)))"
    using foldl_recordIssue [of "[]" issues] by (simp add: eventsByTime_def)
  show "set (sort (map fst (eventsByTime issues))) = set (sort (remdups (eventTimesList issues)))"
    using foldl_recordIssue [of "[]" issues] by (simp add: eventsByTime_def)
qed simp_all

lemma sweep_prefix_sums:
  "sweep m acc ts =
   map (\<lambda>k. \<lparr>px = ts ! k, py = acc + sum_list (map (deltaAt m) (take (Suc k) ts))\<rparr>) [0..<length ts]"
proof (induction ts arbitrary: acc)
  case Nil
  show ?case by simp
next
  case (Cons t ts)
  have "[0..<length (t # ts)] = 0 # map Suc [0..<length ts]"
    by (simp add: upt_conv_Cons map_Suc_upt del: upt_Suc)
  with Cons.IH [of "acc + deltaAt m t"] show ?case
    by (simp add: Let_def deltaAt_def add.assoc comp_def del: upt_Suc)
qed

lemma promiseAll_Inr_iff:
  "(\<exists>vs. promiseAll rs = Inr vs) = (\<not> list_ex isl rs)"
  by (induction rs rule: promiseAll.induct) (auto split: sum.splits)

lemma isl_pairAll: "isl (pairAll r) = requestFailed r"
  by (auto simp: pairAll_def requestFailed_def split: sum.splits)

lemma batch_rejected:
  "list_ex requestFailed responses \<Longrightarrow> \<exists>e. promiseAll (map pairAll responses) = Inl e"
proof -
  assume "list_ex requestFailed responses"
  then have "list_ex isl (map pairAll responses)"
    by (simp add: list_ex_iff isl_pairAll)
  then have "\<not> (\<exists>vs. promiseAll (map pairAll responses) = Inr vs)"
    by (simp only: promiseAll_Inr_iff simp_thms)
  then show ?thesis by (cases "promiseAll (map pairAll responses)") auto
qed

lemma batch_fulfilled:
  "\<not> list_ex requestFailed responses \<Longrightarrow>
   promiseAll (map pairAll responses) = Inr (map (\<lambda>r. (projr (fst r), projr (snd r))) responses)"
proof (induction responses)
  case Nil
  show ?case by simp
next
  case (Cons r rs)
  then have r: "\<not> requestFailed r" and rs: "\<not> list_ex requestFailed rs" by simp_all
  from r obtain a b where "fst r = Inr a" and "snd r = Inr b"
    by (cases "fst r"; cases "snd r") (simp_all add: requestFailed_def)
  then have "pairAll r = Inr (projr (fst r), projr (snd r))" by (simp add: pairAll_def)
  with Cons.IH [OF rs] show ?case by simp
qed

lemma keys_update: "fst ` set (AList.update k v al) = insert k (fst ` set al)"
  by (simp add: dom_update)

lemma map_snd_zip_shorter: "map (f \<circ> snd) (zip xs ys) = map f (take (length xs) ys)"
proof -
  have "map (f \<circ> snd) (zip xs ys) = map f (map snd (zip xs ys))" by simp
  also have "map snd (zip xs ys) = take (length xs) ys"
    by (simp add: map_snd_zip_take min_def)
  finally show ?thesis .
qed

lemma foldl_addResult_summary:
  "foldl (addResult t) (R, D, S) xs = (R', D', S') \<Longrightarrow>
   map identifier S' = map identifier S @ map (repoIdentifier \<circ> snd) xs \<and>
   map totalDownloads S' = map totalDownloads S @ map (sumDownloads \<circ> published \<circ> fst \<circ> fst) xs"
proof (induction xs arbitrary: R D S)
  case Nil
  then show ?case by simp
next
  case (Cons x xs)
  obtain R1 D1 S1 where st: "addResult t (R, D, S) x = (R1, D1, S1)"
    by (cases "addResult t (R, D, S) x") auto
  then have "map identifier S1 = map identifier S @ [repoIdentifier (snd x)]"
    and "map totalDownloads S1 = map totalDownloads S @ [sumDownloads (published (fst (fst x)))]"
    by (auto simp: addResult_def Let_def split: prod.splits)
  with Cons.IH [of R1 D1 S1] Cons.prems st show ?case by simp
qed

lemma foldl_addResult_keys:
  "foldl (addResult t) (R, D, S) xs = (R', D', S') \<Longrightarrow>
   fst ` set R' = fst ` set R \<union> (repoIdentifier \<circ> snd) ` set xs \<and>
   fst ` set D' = fst ` set D \<union> (repoIdentifier \<circ> snd) ` set xs"
proof (induction xs arbitrary: R D S)
  case Nil
  then show ?case by simp
next
  case (Cons x xs)
  obtain R1 D1 S1 where st: "addResult t (R, D, S) x = (R1, D1, S1)"
    by (cases "addResult t (R, D, S) x") auto
  obtain rel det r where x: "x = ((rel, det), r)" by (cases x) auto
  from st x have "R1 = AList.update (repoIdentifier r) (published rel) R"
    and "D1 = AList.update (repoIdentifier r) (sumDownloads (published rel)) D"
    by (simp_all add: addResult_def Let_def)
  then have "fst ` set R1 = insert (repoIdentifier (snd x)) (fst ` set R)"
    and "fst ` set D1 = insert (repoIdentifier (snd x)) (fst ` set D)"
    using x by (simp_all only: keys_update snd_conv)
  with Cons.IH [of R1 D1 S1] Cons.prems st show ?case by (simp add: Un_assoc)
qed

lemma sort_key_stable_map: "map f (sort_key f xs) = sort (map f xs)"
  by (rule properties_for_sort [symmetric]) (simp_all add: sorted_sort_key)

lemma map_of_eventsByTime:
  "map_of (eventsByTime issues) t =
     (if t \<in> set (eventTimesList issues) then Some (netDelta issues t) else None)"
proof (cases "t \<in> set (eventTimesList issues)")
  case True
  then have "t \<in> fst ` set (eventsByTime issues)"
    using foldl_recordIssue [of "[]" issues] by (simp add: eventsByTime_def)
  then obtain d where d: "map_of (eventsByTime issues) t = Some d"
    by (metis domD dom_map_of_conv_image_fst)
  then have "deltaAt (eventsByTime issues) t = d" by (simp add: deltaAt_def)
  with d True show ?thesis by (simp add: deltaAt_eventsByTime)
next
  case False
  then have "t \<notin> fst ` set (eventsByTime issues)"
    using foldl_recordIssue [of "[]" issues] by (simp add: eventsByTime_def)
  then have "map_of (eventsByTime issues) t = None"
    by (simp add: map_of_eq_None_iff)
  with False show ?thesis by simp
qed

lemma map_of_mergeResults:
  "map_of (mergeResults cache xs) k =
     (case map_of (rev (map (\<lambda>(v, r). (repoIdentifier r, v)) xs)) k of
        Some v \<Rightarrow> Some v
      | None \<Rightarrow> map_of cache k)"
proof (induction xs arbitrary: cache)
  case Nil
  show ?case by (simp add: mergeResults_def)
next
  case (Cons x xs)
  obtain v r where x: "x = (v, r)" by (cases x)
  have "mergeResults cache (x # xs) = mergeResults (AList.update (repoIdentifier r) v cache) xs"
    by (simp add: mergeResults_def x)
  with Cons.IH [of "AList.update (repoIdentifier r) v cache"] show ?case
    by (simp add: x update_conv' map_add_def split: option.splits)
qed

lemma merged_pairs:
  "length vs = length rs \<Longrightarrow>
   map (\<lambda>(v, r). (repoIdentifier r, v)) (zip vs rs) = zip (map repoIdentifier rs) vs"
  by (induction vs rs rule: list_induct2) simp_all

lemma map_of_rev_at: "distinct (map fst xs) \<Longrightarrow> map_of (rev xs) k = map_of xs k"
proof (induction xs)
  case Nil
  show ?case by simp
next
  case (Cons x xs)
  obtain a b where x: "x = (a, b)" by (cases x)
  from Cons.prems x have "map_of xs a = None" by (simp add: map_of_eq_None_iff)
  with Cons x show ?case by (simp add: map_add_def split: option.splits)
qed

lemma map_of_filter_other:
  "k \<noteq> i \<Longrightarrow> map_of (filter (\<lambda>e. fst e \<noteq> i) m) k = map_of m k"
  by (induction m) auto

lemma map_of_filter_same: "map_of (filter (\<lambda>e. fst e \<noteq> i) m) i = None"
  by (induction m) auto

lemma delete_filter: "AList.delete k m = filter (\<lambda>e. fst e \<noteq> k) m"
  by (induction m) auto

lemma mergeResults_new:
  assumes "length vs = length rs" and "distinct (map repoIdentifier rs)" and "i < length rs"
  shows "map_of (mergeResults cache (zip vs rs)) (repoIdentifier (rs ! i)) = Some (vs ! i)"
proof -
  let ?l = "zip (map repoIdentifier rs) vs"
  have d: "distinct (map fst ?l)" using assms by simp
  have "map_of (rev ?l) (map repoIdentifier rs ! i) = Some (vs ! i)"
    using assms map_of_zip_nth [of "map repoIdentifier rs" vs i] by (simp add: map_of_rev_at [OF d])
  then show ?thesis using assms by (simp add: map_of_mergeResults merged_pairs)
qed

lemma mergeResults_other:
  assumes "length vs = length rs" and "k \<notin> repoIdentifier ` set rs"
  shows "map_of (mergeResults cache (zip vs rs)) k = map_of cache k"
proof -
  have "k \<notin> fst ` set (rev (zip (map repoIdentifier rs) vs))"
    using assms by (auto dest!: set_zip_leftD)
  then have "map_of (rev (zip (map repoIdentifier rs) vs)) k = None"
    by (simp add: map_of_eq_None_iff)
  then show ?thesis using assms by (simp add: map_of_mergeResults merged_pairs)
qed

lemma promiseAll_rejects: "list_ex isl rs \<Longrightarrow> \<exists>e. promiseAll rs = Inl e"
  using promiseAll_Inr_iff [of rs] by (cases "promiseAll rs") auto

lemma promiseAll_fulfils: "\<not> list_ex isl rs \<Longrightarrow> promiseAll rs = Inr (map projr rs)"
proof (induction rs)
  case Nil
  show ?case by simp
next
  case (Cons r rs)
  then show ?case by (cases r) simp_all
qed

lemma missingFrom_set:
  "set (missingFrom cache rs) = {r \<in> set rs. map_of cache (repoIdentifier r) = None}"
  by (auto simp: missingFrom_def)

lemma sort_requests_stars:
  "githubToken s \<noteq> '''' \<Longrightarrow>
   snd (handleRequestSort t Stars s) =
     (if missingFrom (stargazersData s) (repos s) = [] then []
      else [FetchStargazers (missingFrom (stargazersData s) (repos s))])"
  by (simp add: handleRequestSort_def Let_def updateURL_def)

lemma sort_requests_issues:
  "githubToken s \<noteq> '''' \<Longrightarrow>
   snd (handleRequestSort t OpenIssues s) =
     (if missingFrom (issuesData s) (repos s) = [] then []
      else [FetchIssues (missingFrom (issuesData s) (repos s))])"
  by (simp add: handleRequestSort_def Let_def updateURL_def)

lemma stars_settled_rejected:
  "list_ex isl results \<Longrightarrow>
   stargazers_settled t rs results s = s\<lparr>error := t ''errors.fetchStarHistory'', loading := False\<rparr>"
  using promiseAll_rejects [of results] by (auto simp: stargazers_settled_def)

lemma issues_settled_rejected:
  "list_ex isl results \<Longrightarrow>
   issues_settled t rs results s = s\<lparr>error := t ''errors.fetchIssueHistory'', loading := False\<rparr>"
  using promiseAll_rejects [of results] by (auto simp: issues_settled_def)

lemma stars_settled_fulfilled:
  "\<not> list_ex isl results \<Longrightarrow>
   stargazers_settled t rs results s =
     s\<lparr>stargazersData := mergeResults (stargazersData s) (zip (map projr results) rs), loading := False\<rparr>"
  by (simp add: stargazers_settled_def promiseAll_fulfils)

lemma issues_settled_fulfilled:
  "\<not> list_ex isl results \<Longrightarrow>
   issues_settled t rs results s =
     s\<lparr>issuesData := mergeResults (issuesData s) (zip (map projr results) rs), loading := False\<rparr>"
  by (simp add: issues_settled_def promiseAll_fulfils)

lemma twoRepos_eval:
  "twoRepos =
     initial\<lparr>newUsername := ''b'',
       repos := [\<lparr>username = ''a'', repository = ''x''\<rparr>, \<lparr>username = ''b'', repository = ''y''\<rparr>],
       releasesData := [(''a/x'', []), (''b/y'', [])],
       downloadsData := [(''a/x'', 0), (''b/y'', 0)],
       repoSummaryData :=
         [\<lparr>identifier = ''a/x'', stars = 1, latestVersion = ''common.notAvailable'',
            lastUpdate = ''2024-01-01T00:00:00Z'', sizeKB = 1, totalDownloads = 0, openIssues = 0\<rparr>,
          \<lparr>identifier = ''b/y'', stars = 1, latestVersion = ''common.notAvailable'',
            lastUpdate = ''2024-01-01T00:00:00Z'', sizeKB = 1, totalDownloads = 0, openIssues = 0\<rparr>],
       repoOrder := [''a/x'', ''b/y''],
       urlRepos := Some ''a/x''\<rparr>"
  by (simp add: twoRepos_def initial_def addRepo_def handleFormSubmit_def Let_def
      fetchDataForRepos_start_def fetchDataForRepos_settled_def updateURL_def okResponse_def
      pairAll_def addResult_def published_def sumDownloads_def repoIdentifier_def)

lemma staleBatch_eval:
  "staleBatch =
     initial\<lparr>newUsername := ''b'',
       repos := [\<lparr>username = ''a'', repository = ''x''\<rparr>, \<lparr>username = ''b'', repository = ''y''\<rparr>],
       releasesData := [(''a/x'', [])],
       downloadsData := [(''a/x'', 0)],
       repoSummaryData :=
         [\<lparr>identifier = ''a/x'', stars = 1, latestVersion = ''common.notAvailable'',
            lastUpdate = ''2024-01-01T00:00:00Z'', sizeKB = 1, totalDownloads = 0, openIssues = 0\<rparr>],
       repoOrder := [''a/x'', ''b/y'']\<rparr>"
  by (simp add: staleBatch_def initial_def addRepo_def handleFormSubmit_def Let_def
      fetchDataForRepos_start_def fetchDataForRepos_settled_def updateURL_def okResponse_def
      pairAll_def addResult_def published_def sumDownloads_def repoIdentifier_def)

lemma showNat_digits: "set (showNat n) \<subseteq> set ''0123456789''"
proof (induction n rule: showNat.induct)
  case (1 n)
  have d: "''0123456789'' ! k \<in> set ''0123456789''" if "k < 10" for k
    using that nth_mem [of k "''0123456789''"] by simp
  show ?case
  proof (cases "n < 10")
    case True
    then show ?thesis using d [of n] by (subst showNat.simps) simp
  next
    case False
    have "n mod 10 < 10" by simp
    with False "1.IH" d [of "n mod 10"] show ?thesis by (subst showNat.simps) simp
  qed
qed

lemma showNat_plain: "\<not> needsQuoting (showNat n)"
  using showNat_digits [of n] by (auto simp: needsQuoting_def)

lemma escapeCsv_csvField: "escapeCsv s = csvField s"
  by (simp add: escapeCsv_def csvField_def needsQuoting_def)

lemma csvRow_specRow: "\<not> needsQuoting (lastUpdate d) \<Longrightarrow> csvRow d = specRow d"
  using showNat_plain by (simp add: csvRow_def specRow_def escapeCsv_csvField csvField_def)

lemma find_identifier: "find (\<lambda>d. identifier d = i) ds = Some d \<Longrightarrow> identifier d = i \<and> d \<in> set ds"
  by (induction ds) (auto split: if_splits)

lemma find_identifier_None: "(find (\<lambda>d. identifier d = i) ds = None) = (i \<notin> identifier ` set ds)"
  by (induction ds) auto

lemma rows_in_order:
  "map identifier (List.map_filter (\<lambda>i. find (\<lambda>d. identifier d = i) ds) order) =
   filter (\<lambda>i. i \<in> identifier ` set ds) order"
proof (induction order)
  case Nil
  show ?case by (simp add: List.map_filter_simps)
next
  case (Cons i order)
  show ?case
  proof (cases "find (\<lambda>d. identifier d = i) ds")
    case None
    then have "i \<notin> identifier ` set ds" using find_identifier_None [of i ds] by blast
    with Cons None show ?thesis by (simp add: List.map_filter_simps)
  next
    case (Some d)
    then have "identifier d = i" and "i \<in> identifier ` set ds"
      using find_identifier [OF Some] by auto
    with Cons Some show ?thesis by (simp add: List.map_filter_simps)
  qed
qed

lemma rows_members:
  "set (List.map_filter (\<lambda>i. find (\<lambda>d. identifier d = i) ds) order) \<subseteq> set ds"
  by (auto simp: List.map_filter_def dest: find_identifier)

lemma settled_rejected:
  assumes "list_ex requestFailed responses"
  shows "fetchDataForRepos_settled t responses s =
           s\<lparr>error := t ''errors.fetchRepoData'', loading := False\<rparr>"
proof -
  from assms obtain e where "promiseAll (map pairAll responses) = Inl e"
    using batch_rejected by blast
  then show ?thesis by (simp add: fetchDataForRepos_settled_def)
qed

lemma settled_fulfilled:
  assumes ok: "\<not> list_ex requestFailed responses"
  shows "\<exists>R D S.
           fetchDataForRepos_settled t responses s =
             s\<lparr>releasesData := R, downloadsData := D, repoSummaryData := S,
               repoOrder := map repoIdentifier (repos s), loading := False\<rparr> \<and>
           map identifier S = map repoIdentifier (take (length responses) (repos s)) \<and>
           fst ` set R = set (map identifier S) \<and> fst ` set D = set (map identifier S) \<and>
           fetchDataForRepos_settled t responses
             (s\<lparr>releasesData := Rx, downloadsData := Dx, repoSummaryData := Sx, repoOrder := Ox\<rparr>) =
           fetchDataForRepos_settled t responses s"
proof -
  define results where "results = map (\<lambda>r. (projr (fst r), projr (snd r))) responses"
  have pa: "promiseAll (map pairAll responses) = Inr results"
    using batch_fulfilled [OF ok] by (simp add: results_def)
  obtain R D S where f: "foldl (addResult t) ([], [], []) (zip results (repos s)) = (R, D, S)"
    by (cases "foldl (addResult t) ([], [], []) (zip results (repos s))") auto
  have len: "length results = length responses" by (simp add: results_def)
  have ids: "map identifier S = map repoIdentifier (take (length responses) (repos s))"
    using foldl_addResult_summary [OF f] len by (simp add: map_snd_zip_shorter)
  have keys: "fst ` set R = set (map identifier S) \<and> fst ` set D = set (map identifier S)"
    using foldl_addResult_keys [OF f] foldl_addResult_summary [OF f] by (simp add: image_comp)
  have "fetchDataForRepos_settled t responses s =
           s\<lparr>releasesData := R, downloadsData := D, repoSummaryData := S,
             repoOrder := map repoIdentifier (repos s), loading := False\<rparr>"
    using pa f by (simp add: fetchDataForRepos_settled_def)
  moreover have "fetchDataForRepos_settled t responses
           (s\<lparr>releasesData := Rx, downloadsData := Dx, repoSummaryData := Sx, repoOrder := Ox\<rparr>) =
         fetchDataForRepos_settled t responses s"
    using pa f by (simp add: fetchDataForRepos_settled_def)
  ultimately show ?thesis using ids keys by blast
qed

lemma settled_aligned:
  assumes "\<not> list_ex requestFailed responses" and "length responses = length (repos s)"
  shows "aligned (fetchDataForRepos_settled t responses s) \<and>
         repos (fetchDataForRepos_settled t responses s) = repos s \<and>
         repoOrder (fetchDataForRepos_settled t responses s) = map repoIdentifier (repos s)"
proof -
  from settled_fulfilled [OF assms(1), of t s "[]" "[]" "[]" "[]"] obtain R D S where
    eq: "fetchDataForRepos_settled t responses s =
             s\<lparr>releasesData := R, downloadsData := D, repoSummaryData := S,
               repoOrder := map repoIdentifier (repos s), loading := False\<rparr>"
    and ids: "map identifier S = map repoIdentifier (take (length responses) (repos s))"
    by blast
  from ids assms(2) have "map identifier S = map repoIdentifier (repos s)" by simp
  with eq show ?thesis by (simp add: aligned_def)
qed

lemma mset_insertBy: "mset (insertBy cmp a xs) = add_mset a (mset xs)"
  by (induction xs) simp_all

lemma mset_sortBy: "mset (sortBy cmp xs) = mset xs"
  by (induction xs) (simp_all add: sortBy_def mset_insertBy)

lemma addRepo_nothing:
  "snd (addRepo u r s) = [] \<Longrightarrow> aligned (fst (addRepo u r s)) = aligned s"
  by (auto simp: addRepo_def handleFormSubmit_def Let_def fetchDataForRepos_start_def aligned_def
      split: if_splits)

lemma addRepo_batch:
  "snd (addRepo u r s) = [FetchBatch batch] \<Longrightarrow> batch = repos (fst (addRepo u r s))"
  by (auto simp: addRepo_def handleFormSubmit_def Let_def fetchDataForRepos_start_def updateURL_def
      split: if_splits)

lemma loadSet_nothing:
  "snd (handleLoadSet n s) = [] \<Longrightarrow> fst (handleLoadSet n s) = s"
  by (auto simp: handleLoadSet_def fetchDataForRepos_start_def split: option.splits)

lemma loadSet_batch:
  "snd (handleLoadSet n s) = [FetchBatch batch] \<Longrightarrow> batch = repos (fst (handleLoadSet n s))"
  by (auto simp: handleLoadSet_def fetchDataForRepos_start_def updateURL_def split: option.splits)

lemma updateAuthToken_nothing:
  "snd (updateAuthToken k s) = [] \<Longrightarrow> aligned (fst (updateAuthToken k s)) = aligned s"
  by (auto simp: updateAuthToken_def Let_def fetchDataForRepos_start_def aligned_def split: if_splits)

lemma updateAuthToken_batch:
  "snd (updateAuthToken k s) = [FetchBatch batch] \<Longrightarrow> batch = repos (fst (updateAuthToken k s))"
  by (auto simp: updateAuthToken_def Let_def fetchDataForRepos_start_def split: if_splits)

lemma remove_aligned: "aligned s \<Longrightarrow> aligned (handleRemoveRepo r s)"
proof -
  assume a: "aligned s"
  have f1: "mset (map repoIdentifier (filter (\<lambda>x. repoIdentifier x \<noteq> k) xs)) =
            filter_mset (\<lambda>i. i \<noteq> k) (mset (map repoIdentifier xs))" for k and xs :: "repo list"
    by (induction xs) simp_all
  have f2: "mset (map identifier (filter (\<lambda>x. identifier x \<noteq> k) xs)) =
            filter_mset (\<lambda>i. i \<noteq> k) (mset (map identifier xs))" for k and xs :: "RepoSummary list"
    by (induction xs) simp_all
  from a show ?thesis
    unfolding aligned_def handleRemoveRepo_def Let_def updateURL_def
    by (simp add: f1 f2 del: mset_map)
qed

lemma sort_aligned: "aligned s \<Longrightarrow> aligned (fst (handleRequestSort t k s))"
  by (simp add: handleRequestSort_def Let_def updateURL_def aligned_def mset_sortBy)

lemma stars_settled_aligned: "aligned (stargazers_settled t rs results s) = aligned s"
  by (simp add: stargazers_settled_def aligned_def split: sum.splits)

lemma issues_settled_aligned: "aligned (issues_settled t rs results s) = aligned s"
  by (simp add: issues_settled_def aligned_def split: sum.splits)

lemma reorder_aligned:
  "aligned s \<Longrightarrow> mset newOrder = mset (repoOrder s) \<Longrightarrow> aligned (setNewOrder newOrder s)"
  by (simp add: setNewOrder_def updateURL_def aligned_def)

lemma clear_aligned: "aligned (clearAction s)"
  by (simp add: clearAction_def updateURL_def aligned_def)

lemma save_aligned: "aligned (handleSaveSetConfirm n s) = aligned s"
  by (simp add: handleSaveSetConfirm_def aligned_def)

lemma committed_aligned: "committed t s \<Longrightarrow> aligned s"
proof (induction rule: committed.induct)
  case start
  show ?case by (simp add: aligned_def initial_def)
next
  case (add_nothing s u r)
  then show ?case by (simp add: addRepo_nothing)
next
  case (add_fetched s u r batch responses)
  then show ?case using addRepo_batch [of u r s batch] settled_aligned by simp
next
  case (remove s r)
  then show ?case by (simp add: remove_aligned)
next
  case (sort s k)
  then show ?case by (simp add: sort_aligned)
next
  case (stars_settled s rs starResults)
  then show ?case by (simp add: stars_settled_aligned)
next
  case (issues_settled s rs issueResults)
  then show ?case by (simp add: issues_settled_aligned)
next
  case (reorder s newOrder)
  then show ?case by (simp add: reorder_aligned)
next
  case (clear s)
  show ?case by (rule clear_aligned)
next
  case (save s setName)
  then show ?case by (simp add: save_aligned)
next
  case (load_nothing s setName)
  then show ?case by (simp add: loadSet_nothing)
next
  case (load_fetched s setName batch responses)
  then show ?case using loadSet_batch [of setName s batch] settled_aligned by simp
next
  case (token_nothing s token)
  then show ?case by (simp add: updateAuthToken_nothing)
next
  case (token_fetched s token batch responses)
  then show ?case using updateAuthToken_batch [of token s batch] settled_aligned by simp
qed

lemma withToken_eval:
  "withToken = twoRepos\<lparr>githubToken := ''token''\<rparr>"
  by (simp add: withToken_def updateAuthToken_def Let_def fetchDataForRepos_start_def
      fetchDataForRepos_settled_def twoRepos_eval initial_def okResponse_def
      pairAll_def addResult_def published_def sumDownloads_def repoIdentifier_def)

lemma reordered_eval:
  "reordered = twoRepos\<lparr>repoOrder := [''b/y'', ''a/x''], sortKey := Manual, urlRepos := Some ''b/y,a/x''\<rparr>"
  by (simp add: reordered_def setNewOrder_def updateURL_def twoRepos_eval initial_def)

lemma failedAdd_eval:
  "failedAdd =
     initial\<lparr>newUsername := ''a'', repos := [\<lparr>username = ''a'', repository = ''x''\<rparr>],
       error := ''errors.fetchRepoData''\<rparr>"
  by (simp add: failedAdd_def initial_def addRepo_def handleFormSubmit_def Let_def
      fetchDataForRepos_start_def fetchDataForRepos_settled_def updateURL_def pairAll_def)

lemma committed_twoRepos: "committed (\<lambda>k. k) twoRepos"
proof -
  have ok: "\<not> list_ex requestFailed [okResponse]" "\<not> list_ex requestFailed [okResponse, okResponse]"
    by (simp_all add: requestFailed_def okResponse_def)
  have b1: "snd (addRepo ''a'' ''x'' initial) = [FetchBatch [\<lparr>username = ''a'', repository = ''x''\<rparr>]]"
    by (simp add: addRepo_def handleFormSubmit_def Let_def fetchDataForRepos_start_def initial_def)
  have c1: "committed (\<lambda>k. k)
      (fetchDataForRepos_settled (\<lambda>k. k) [okResponse] (fst (addRepo ''a'' ''x'' initial)))"
    by (rule committed.add_fetched [OF committed.start b1 _ ok(1)]) simp
  have "repos (fetchDataForRepos_settled (\<lambda>k. k) [okResponse] (fst (addRepo ''a'' ''x'' initial))) =
        [\<lparr>username = ''a'', repository = ''x''\<rparr>]"
    by (simp add: addRepo_def handleFormSubmit_def Let_def fetchDataForRepos_start_def initial_def
      fetchDataForRepos_settled_def updateURL_def okResponse_def pairAll_def addResult_def
      published_def sumDownloads_def)
  then have b2: "snd (addRepo ''b'' ''y''
        (fetchDataForRepos_settled (\<lambda>k. k) [okResponse] (fst (addRepo ''a'' ''x'' initial)))) =
      [FetchBatch [\<lparr>username = ''a'', repository = ''x''\<rparr>, \<lparr>username = ''b'', repository = ''y''\<rparr>]]"
    by (simp add: addRepo_def handleFormSubmit_def Let_def fetchDataForRepos_start_def)
  show ?thesis
    unfolding twoRepos_def by (rule committed.add_fetched [OF c1 b2 _ ok(2)]) simp
qed

lemma committed_reordered: "committed (\<lambda>k. k) reordered"
  unfolding reordered_def
  by (rule committed.reorder [OF committed_twoRepos]) (simp add: twoRepos_eval initial_def)

lemma splitOn_plain: "c \<notin> set p \<Longrightarrow> splitOn c p = [p]"
  by (induction p) auto

lemma splitOn_at: "c \<notin> set u \<Longrightarrow> splitOn c (u @ c # p) = u # splitOn c p"
  by (induction u) auto

lemma parseRepo_identifier:
  assumes "plainName (username r)" and "plainName (repository r)"
  shows "parseRepo (repoIdentifier r) = Some r"
proof -
  have "splitOn (CHR ''/'') (repoIdentifier r) = [username r, repository r]"
    using assms by (simp add: repoIdentifier_def plainName_def splitOn_at splitOn_plain)
  with assms show ?thesis by (simp add: parseRepo_def plainName_def)
qed

lemma parse_saved:
  "\<forall>r \<in> set rs. plainName (username r) \<and> plainName (repository r) \<Longrightarrow>
   List.map_filter parseRepo (map repoIdentifier rs) = rs"
  by (induction rs) (simp_all add: List.map_filter_simps parseRepo_identifier)

lemma load_after_save:
  assumes "setName \<noteq> ''''"
    and "\<forall>r \<in> set (repos s). plainName (username r) \<and> plainName (repository r)"
  shows "handleLoadSet setName (clearAction (handleSaveSetConfirm setName s)) =
         (updateURL ((clearAction (handleSaveSetConfirm setName s))
            \<lparr>repos := repos s, loading := True, error := ''''\<rparr>), [FetchBatch (repos s)])"
proof -
  have "map_of (savedSets (clearAction (handleSaveSetConfirm setName s))) setName =
        Some (map repoIdentifier (repos s))"
    using assms(1) by (simp add: clearAction_def updateURL_def handleSaveSetConfirm_def update_conv')
  then show ?thesis
    using parse_saved [OF assms(2)]
    by (simp add: handleLoadSet_def fetchDataForRepos_start_def)
qed

section \<open>Claims\<close>

text \<open>
  C5. The star and the issue collectors stop after at most 10 pages of 100 items. What
  they return depends on the first ten pages only; when no page has more than 100 items,
  at most 1000 items are returned; and for a repository with ten pages or more, the
  result is the items of the first ten pages in the order of the server (of the issue
  pages, the items that are not pull requests).
\<close>

theorem collectors_capped:
  fixes stars stars' :: "nat \<Rightarrow> star_event page_result"
    and iss iss' :: "nat \<Rightarrow> api_issue page_result"
  shows
    "((\<forall>k<10. stars' k = stars k) \<longrightarrow> fetchStargazers stars' = fetchStargazers stars) \<and>
     ((\<forall>k<10. iss' k = iss k) \<longrightarrow> fetchIssues iss' = fetchIssues iss) \<and>
     ((\<forall>k p. stars k = Page p \<longrightarrow> length p \<le> 100) \<longrightarrow>
        (\<forall>xs. fetchStargazers stars = Inr xs \<longrightarrow> length xs \<le> 1000)) \<and>
     ((\<forall>k p. iss k = Page p \<longrightarrow> length p \<le> 100) \<longrightarrow>
        (\<forall>xs. fetchIssues iss = Inr xs \<longrightarrow> length xs \<le> 1000)) \<and>
     ((\<forall>k<10. \<exists>p. stars k = Page p) \<longrightarrow>
        fetchStargazers stars = Inr (concat (map (pageItems stars) [0..<10]))) \<and>
     ((\<forall>k<10. \<exists>p. iss k = Page p) \<longrightarrow>
        fetchIssues iss = Inr (concat (map (\<lambda>k. issuesOnly (pageItems iss k)) [0..<10])))"
proof -
  have a: "(\<forall>k<10. stars' k = stars k) \<longrightarrow> fetchStargazers stars' = fetchStargazers stars"
    unfolding fetchStargazers_def using stargazersLoop_cong [of 0 stars' stars "[]"] by simp
  have b: "(\<forall>k<10. iss' k = iss k) \<longrightarrow> fetchIssues iss' = fetchIssues iss"
    unfolding fetchIssues_def using issuesLoop_cong [of 0 iss' iss "[]"] by simp
  have c: "(\<forall>k p. stars k = Page p \<longrightarrow> length p \<le> 100) \<longrightarrow>
        (\<forall>xs. fetchStargazers stars = Inr xs \<longrightarrow> length xs \<le> 1000)"
    unfolding fetchStargazers_def using stargazersLoop_length [of 0 stars "[]"] by fastforce
  have d: "(\<forall>k p. iss k = Page p \<longrightarrow> length p \<le> 100) \<longrightarrow>
        (\<forall>xs. fetchIssues iss = Inr xs \<longrightarrow> length xs \<le> 1000)"
    unfolding fetchIssues_def using issuesLoop_length [of 0 iss "[]"] by fastforce
  have e: "(\<forall>k<10. \<exists>p. stars k = Page p) \<longrightarrow>
        fetchStargazers stars = Inr (concat (map (pageItems stars) [0..<10]))"
    unfolding fetchStargazers_def using stargazersLoop_pages [of 0 10 stars "[]"] by simp
  have f: "(\<forall>k<10. \<exists>p. iss k = Page p) \<longrightarrow>
        fetchIssues iss = Inr (concat (map (\<lambda>k. issuesOnly (pageItems iss k)) [0..<10]))"
    unfolding fetchIssues_def using issuesLoop_pages [of 0 10 iss "[]"] by simp
  from a b c d e f show ?thesis by blast
qed

text \<open>
  A repository whose server never runs out of pages of 100 stars, and one whose issue
  pages hold 99 issues and a pull request each: the collectors return the first ten pages.
\<close>

theorem collectors_capped_witness:
  "(\<exists>xs. fetchStargazers (\<lambda>k. Page (replicate 100 \<lparr>starred_at = int k\<rparr>)) = Inr xs \<and>
         xs = concat (map (\<lambda>k. replicate 100 \<lparr>starred_at = int k\<rparr>) [0..<10]) \<and>
         length xs \<le> 1000) \<and>
   (\<exists>ys. fetchIssues
           (\<lambda>k. Page (\<lparr>created_at = 0, closed_at = None, pull_request = True\<rparr> #
                       replicate 99 \<lparr>created_at = int k, closed_at = None, pull_request = False\<rparr>)) =
         Inr ys \<and>
         ys = concat (map (\<lambda>k. replicate 99 \<lparr>created_at = int k, closed_at = None\<rparr>) [0..<10]) \<and>
         length ys \<le> 1000)"
  using collectors_capped
    [of "\<lambda>k. Page (replicate 100 \<lparr>starred_at = int k\<rparr>)"
        "\<lambda>k. Page (replicate 100 \<lparr>starred_at = int k\<rparr>)"
        "\<lambda>k. Page (\<lparr>created_at = 0, closed_at = None, pull_request = True\<rparr> #
                    replicate 99 \<lparr>created_at = int k, closed_at = None, pull_request = False\<rparr>)"
        "\<lambda>k. Page (\<lparr>created_at = 0, closed_at = None, pull_request = True\<rparr> #
                    replicate 99 \<lparr>created_at = int k, closed_at = None, pull_request = False\<rparr>)"]
  by (simp add: pageItems_def [abs_def] issuesOnly_def)

text \<open>
  C4. The cumulative star series of \<open>N\<close> star events has \<open>N\<close> points; they are the events
  sorted by timestamp, so the \<open>x\<close> values do not decrease (equal timestamps stay); the \<open>y\<close>
  values are \<open>1, \<dots>, N\<close>, strictly increasing. A repository without any star event gets no
  dataset.
\<close>

theorem star_series_cumulative:
  "length (starData starEvents) = length starEvents \<and>
   map py (starData starEvents) = [1..int (length starEvents)] \<and>
   sorted_wrt (<) (map py (starData starEvents)) \<and>
   map px (starData starEvents) = sort (map starred_at starEvents) \<and>
   sorted (map px (starData starEvents)) \<and>
   starDataset (Some starEvents) = (if starEvents = [] then None else Some (starData starEvents))"
proof -
  have ys: "map py (starData starEvents) = [1..int (length starEvents)]"
    using cumulative_py [of 0 "sort_key starred_at starEvents"]
    by (simp add: starData_def sortBy_difference)
  have xs: "map px (starData starEvents) = sort (map starred_at starEvents)"
    by (simp add: starData_def sortBy_difference cumulative_px sort_key_stable_map)
  have "sorted_wrt (<) [1..int (length starEvents)]"
    using sorted_wrt_upto [of 1 "int (length starEvents)"] by simp
  with ys xs show ?thesis
    by (simp add: starData_def sortBy_difference cumulative_length starDataset_def)
qed

theorem star_series_cumulative_witness:
  "starData [\<lparr>starred_at = 30\<rparr>, \<lparr>starred_at = 10\<rparr>, \<lparr>starred_at = 30\<rparr>, \<lparr>starred_at = 20\<rparr>] =
     [\<lparr>px = 10, py = 1\<rparr>, \<lparr>px = 20, py = 2\<rparr>, \<lparr>px = 30, py = 3\<rparr>, \<lparr>px = 30, py = 4\<rparr>] \<and>
   length (starData [\<lparr>starred_at = 30\<rparr>, \<lparr>starred_at = 10\<rparr>, \<lparr>starred_at = 30\<rparr>, \<lparr>starred_at = 20\<rparr>]) = 4"
  using star_series_cumulative
    [of "[\<lparr>starred_at = 30\<rparr>, \<lparr>starred_at = 10\<rparr>, \<lparr>starred_at = 30\<rparr>, \<lparr>starred_at = 20\<rparr>]"]
  by (simp add: starData_def sortBy_def)

text \<open>
  C3. The open-issue series is the sweep line of the specification: net deltas per
  timestamp, distinct timestamps ascending, running sum, after the point
  \<open>(firstTimestamp - 1, 0)\<close>. No issue, no dataset. For the issues
  \<open>[{created: 10, closed: null}, {created: 10, closed: 10}]\<close> the net delta at 10 is \<open>+1\<close> and
  the series ends at 1; for \<open>[{created: 1, closed: 5}, {created: 3, closed: null}]\<close> the
  count is 2 at time 4 and 1 at time 6.
\<close>

theorem issue_series_sweep_line:
  "issueData issues = sweepLineSpec issues \<and>
   map_of (eventsByTime issues) =
     (\<lambda>t. if t \<in> set (eventTimesList issues) then Some (netDelta issues t) else None) \<and>
   issueDataset (Some issues) = (if issues = [] then None else Some (issueData issues)) \<and>
   map_of (eventsByTime [\<lparr>created_at = 10, closed_at = None\<rparr>, \<lparr>created_at = 10, closed_at = Some 10\<rparr>]) 10 =
     Some 1 \<and>
   issueData [\<lparr>created_at = 10, closed_at = None\<rparr>, \<lparr>created_at = 10, closed_at = Some 10\<rparr>] =
     [\<lparr>px = 9, py = 0\<rparr>, \<lparr>px = 10, py = 1\<rparr>] \<and>
   issueData [\<lparr>created_at = 1, closed_at = Some 5\<rparr>, \<lparr>created_at = 3, closed_at = None\<rparr>] =
     [\<lparr>px = 0, py = 0\<rparr>, \<lparr>px = 1, py = 1\<rparr>, \<lparr>px = 3, py = 2\<rparr>, \<lparr>px = 5, py = 1\<rparr>] \<and>
   openCountAt (issueData [\<lparr>created_at = 1, closed_at = Some 5\<rparr>, \<lparr>created_at = 3, closed_at = None\<rparr>]) 4 =
     Some 2 \<and>
   openCountAt (issueData [\<lparr>created_at = 1, closed_at = Some 5\<rparr>, \<lparr>created_at = 3, closed_at = None\<rparr>]) 6 =
     Some 1"
proof -
  have general: "issueData issues = sweepLineSpec issues"
    unfolding issueData_def sweepLineSpec_def Let_def sweep_prefix_sums deltaAt_eventsByTime
      sortBy_ascending sortedTimes_eventsByTime add_0
    by (rule refl)
  have deltas: "map_of (eventsByTime issues) =
     (\<lambda>t. if t \<in> set (eventTimesList issues) then Some (netDelta issues t) else None)"
    by (rule ext) (simp add: map_of_eventsByTime)
  have ex2: "issueData [\<lparr>created_at = 1, closed_at = Some 5\<rparr>, \<lparr>created_at = 3, closed_at = None\<rparr>] =
     [\<lparr>px = 0, py = 0\<rparr>, \<lparr>px = 1, py = 1\<rparr>, \<lparr>px = 3, py = 2\<rparr>, \<lparr>px = 5, py = 1\<rparr>]"
    by (simp add: issueData_def sortBy_def eventsByTime_def recordIssue_def bumpEvent_def Let_def)
  have ex1: "issueData [\<lparr>created_at = 10, closed_at = None\<rparr>, \<lparr>created_at = 10, closed_at = Some 10\<rparr>] =
     [\<lparr>px = 9, py = 0\<rparr>, \<lparr>px = 10, py = 1\<rparr>]"
    by (simp add: issueData_def sortBy_def eventsByTime_def recordIssue_def bumpEvent_def Let_def)
  have ex1d: "map_of (eventsByTime [\<lparr>created_at = 10, closed_at = None\<rparr>, \<lparr>created_at = 10, closed_at = Some 10\<rparr>]) 10 =
     Some 1"
    by (simp add: eventsByTime_def recordIssue_def bumpEvent_def Let_def)
  from general deltas ex1 ex1d show ?thesis
    by (simp add: ex2 openCountAt_def issueDataset_def)
qed

theorem issue_series_sweep_line_witness:
  "issueData [\<lparr>created_at = 7, closed_at = Some 7\<rparr>, \<lparr>created_at = 2, closed_at = Some 7\<rparr>] =
     [\<lparr>px = 1, py = 0\<rparr>, \<lparr>px = 2, py = 1\<rparr>, \<lparr>px = 7, py = 0\<rparr>] \<and>
   sweepLineSpec [\<lparr>created_at = 7, closed_at = Some 7\<rparr>, \<lparr>created_at = 2, closed_at = Some 7\<rparr>] =
     [\<lparr>px = 1, py = 0\<rparr>, \<lparr>px = 2, py = 1\<rparr>, \<lparr>px = 7, py = 0\<rparr>]"
proof -
  have e: "issueData [\<lparr>created_at = 7, closed_at = Some 7\<rparr>, \<lparr>created_at = 2, closed_at = Some 7\<rparr>] =
     [\<lparr>px = 1, py = 0\<rparr>, \<lparr>px = 2, py = 1\<rparr>, \<lparr>px = 7, py = 0\<rparr>]"
    by (simp add: issueData_def sortBy_def eventsByTime_def recordIssue_def bumpEvent_def Let_def)
  have "sweepLineSpec [\<lparr>created_at = 7, closed_at = Some 7\<rparr>, \<lparr>created_at = 2, closed_at = Some 7\<rparr>] =
     issueData [\<lparr>created_at = 7, closed_at = Some 7\<rparr>, \<lparr>created_at = 2, closed_at = Some 7\<rparr>]"
    using issue_series_sweep_line
      [of "[\<lparr>created_at = 7, closed_at = Some 7\<rparr>, \<lparr>created_at = 2, closed_at = Some 7\<rparr>]"]
    by (simp only:)
  with e show ?thesis by simp
qed

text \<open>
  C1. The primary batch fetch is all or nothing. Sending the batch sets the loading
  flag and clears the message, nothing else. When one of the requests of the batch is
  rejected, the summary rows, the releases and downloads data, the display order and
  every other field stay as they are; only the aggregate message is set and the loading
  flag is cleared. When no request is rejected, the releases data, the downloads data,
  the summary rows and the display order are all replaced together: the new values do
  not depend on the old ones, the rows are those of the repositories of the batch, and
  the display order is the order of \<open>_repos\<close>.
\<close>

theorem batch_fetch_all_or_nothing:
  "fetchDataForRepos_start s = (s\<lparr>loading := True, error := []\<rparr>, [FetchBatch (repos s)]) \<and>
   (list_ex requestFailed responses \<longrightarrow>
      fetchDataForRepos_settled t responses s =
        s\<lparr>error := t ''errors.fetchRepoData'', loading := False\<rparr>) \<and>
   (\<not> list_ex requestFailed responses \<longrightarrow>
      (\<exists>R D S.
         fetchDataForRepos_settled t responses s =
           s\<lparr>releasesData := R, downloadsData := D, repoSummaryData := S,
             repoOrder := map repoIdentifier (repos s), loading := False\<rparr> \<and>
         map identifier S = map repoIdentifier (take (length responses) (repos s)) \<and>
         fst ` set R = set (map identifier S) \<and> fst ` set D = set (map identifier S) \<and>
         fetchDataForRepos_settled t responses
           (s\<lparr>releasesData := Rx, downloadsData := Dx, repoSummaryData := Sx, repoOrder := Ox\<rparr>) =
         fetchDataForRepos_settled t responses s))"
proof (intro conjI impI)
  show "fetchDataForRepos_start s = (s\<lparr>loading := True, error := []\<rparr>, [FetchBatch (repos s)])"
    by (simp add: fetchDataForRepos_start_def)
next
  assume "list_ex requestFailed responses"
  then show "fetchDataForRepos_settled t responses s =
        s\<lparr>error := t ''errors.fetchRepoData'', loading := False\<rparr>"
    by (rule settled_rejected)
next
  assume "\<not> list_ex requestFailed responses"
  then show "\<exists>R D S.
         fetchDataForRepos_settled t responses s =
           s\<lparr>releasesData := R, downloadsData := D, repoSummaryData := S,
             repoOrder := map repoIdentifier (repos s), loading := False\<rparr> \<and>
         map identifier S = map repoIdentifier (take (length responses) (repos s)) \<and>
         fst ` set R = set (map identifier S) \<and> fst ` set D = set (map identifier S) \<and>
         fetchDataForRepos_settled t responses
           (s\<lparr>releasesData := Rx, downloadsData := Dx, repoSummaryData := Sx, repoOrder := Ox\<rparr>) =
         fetchDataForRepos_settled t responses s"
    by (rule settled_fulfilled)
qed

theorem batch_fetch_all_or_nothing_witness:
  "fetchDataForRepos_settled (\<lambda>k. k)
     [(Inr [], Inr \<lparr>stargazers_count = 5, pushed_at = ''2024-01-01T00:00:00Z'', details_size = 7,
                     open_issues_count = 1\<rparr>),
      (Inr [], Inl (HttpError 404))]
     (initial\<lparr>repos := [\<lparr>username = ''a'', repository = ''x''\<rparr>, \<lparr>username = ''b'', repository = ''y''\<rparr>],
              loading := True\<rparr>) =
   initial\<lparr>repos := [\<lparr>username = ''a'', repository = ''x''\<rparr>, \<lparr>username = ''b'', repository = ''y''\<rparr>],
           error := ''errors.fetchRepoData''\<rparr> \<and>
   repoOrder
     (fetchDataForRepos_settled (\<lambda>k. k)
        [(Inr [], Inr \<lparr>stargazers_count = 5, pushed_at = ''2024-01-01T00:00:00Z'', details_size = 7,
                        open_issues_count = 1\<rparr>)]
        (initial\<lparr>repos := [\<lparr>username = ''a'', repository = ''x''\<rparr>], loading := True\<rparr>)) =
   [''a/x'']"
proof -
  have "fetchDataForRepos_settled (\<lambda>k. k)
     [(Inr [], Inr \<lparr>stargazers_count = 5, pushed_at = ''2024-01-01T00:00:00Z'', details_size = 7,
                     open_issues_count = 1\<rparr>),
      (Inr [], Inl (HttpError 404))]
     (initial\<lparr>repos := [\<lparr>username = ''a'', repository = ''x''\<rparr>, \<lparr>username = ''b'', repository = ''y''\<rparr>],
              loading := True\<rparr>) =
   initial\<lparr>repos := [\<lparr>username = ''a'', repository = ''x''\<rparr>, \<lparr>username = ''b'', repository = ''y''\<rparr>],
           error := ''errors.fetchRepoData''\<rparr>"
    using batch_fetch_all_or_nothing
      [where responses = "[(Inr [], Inr \<lparr>stargazers_count = 5, pushed_at = ''2024-01-01T00:00:00Z'',
                     details_size = 7, open_issues_count = 1\<rparr>), (Inr [], Inl (HttpError 404))]"
         and t = "\<lambda>k. k"
         and s = "initial\<lparr>repos := [\<lparr>username = ''a'', repository = ''x''\<rparr>,
                                   \<lparr>username = ''b'', repository = ''y''\<rparr>], loading := True\<rparr>"]
    by (simp add: requestFailed_def initial_def)
  moreover have "repoOrder
     (fetchDataForRepos_settled (\<lambda>k. k)
        [(Inr [], Inr \<lparr>stargazers_count = 5, pushed_at = ''2024-01-01T00:00:00Z'', details_size = 7,
                        open_issues_count = 1\<rparr>)]
        (initial\<lparr>repos := [\<lparr>username = ''a'', repository = ''x''\<rparr>], loading := True\<rparr>)) =
   [''a/x'']"
    using batch_fetch_all_or_nothing
      [where responses = "[(Inr [], Inr \<lparr>stargazers_count = 5, pushed_at = ''2024-01-01T00:00:00Z'',
                        details_size = 7, open_issues_count = 1\<rparr>)]"
         and t = "\<lambda>k. k"
         and s = "initial\<lparr>repos := [\<lparr>username = ''a'', repository = ''x''\<rparr>], loading := True\<rparr>"
         and Rx = "[]" and Dx = "[]" and Sx = "[]" and Ox = "[]"]
    by (auto simp add: requestFailed_def initial_def repoIdentifier_def)
  ultimately show ?thesis by (rule conjI)
qed

text \<open>
  C7. Without a credential, a request to sort by stars or by open issues is refused:
  the policy message is set, no request is sent, and the display order, the sort key, the
  sort direction and every other field stay as they are.
\<close>

theorem gated_sort_refused:
  assumes "githubToken s = ''''" and "newSortKey = Stars \<or> newSortKey = OpenIssues"
  shows "handleRequestSort t newSortKey s = (s\<lparr>authError := t ''errors.authRequired''\<rparr>, []) \<and>
         snd (handleRequestSort t newSortKey s) = [] \<and>
         authError (fst (handleRequestSort t newSortKey s)) = t ''errors.authRequired'' \<and>
         repoOrder (fst (handleRequestSort t newSortKey s)) = repoOrder s \<and>
         sortKey (fst (handleRequestSort t newSortKey s)) = sortKey s \<and>
         sortDirection (fst (handleRequestSort t newSortKey s)) = sortDirection s \<and>
         stargazersData (fst (handleRequestSort t newSortKey s)) = stargazersData s \<and>
         issuesData (fst (handleRequestSort t newSortKey s)) = issuesData s"
  using assms by (auto simp: handleRequestSort_def)

theorem gated_sort_refused_witness:
  "handleRequestSort (\<lambda>k. k) OpenIssues (initial\<lparr>repoOrder := [''b/y'', ''a/x''], sortKey := Manual\<rparr>) =
     (initial\<lparr>repoOrder := [''b/y'', ''a/x''], sortKey := Manual, authError := ''errors.authRequired''\<rparr>, [])"
  using gated_sort_refused
    [of "initial\<lparr>repoOrder := [''b/y'', ''a/x''], sortKey := Manual\<rparr>" OpenIssues "\<lambda>k. k"]
  by (simp add: initial_def)

text \<open>
  C10. Removing a repository removes exactly its identifier: the other identifiers keep
  their relative order in \<open>_repos\<close>, in the display order, in the summary rows and in the
  four maps, and their releases, downloads, star events, issue events and summary rows
  are what they were; no entry of the removed identifier is left.
\<close>

theorem remove_repo_frame:
  "map repoIdentifier (repos (handleRemoveRepo r s)) =
     filter (\<lambda>i. i \<noteq> repoIdentifier r) (map repoIdentifier (repos s)) \<and>
   repoOrder (handleRemoveRepo r s) = filter (\<lambda>i. i \<noteq> repoIdentifier r) (repoOrder s) \<and>
   repoSummaryData (handleRemoveRepo r s) =
     filter (\<lambda>d. identifier d \<noteq> repoIdentifier r) (repoSummaryData s) \<and>
   releasesData (handleRemoveRepo r s) = filter (\<lambda>e. fst e \<noteq> repoIdentifier r) (releasesData s) \<and>
   downloadsData (handleRemoveRepo r s) = filter (\<lambda>e. fst e \<noteq> repoIdentifier r) (downloadsData s) \<and>
   stargazersData (handleRemoveRepo r s) = filter (\<lambda>e. fst e \<noteq> repoIdentifier r) (stargazersData s) \<and>
   issuesData (handleRemoveRepo r s) = filter (\<lambda>e. fst e \<noteq> repoIdentifier r) (issuesData s) \<and>
   (\<forall>k. k \<noteq> repoIdentifier r \<longrightarrow>
      map_of (releasesData (handleRemoveRepo r s)) k = map_of (releasesData s) k \<and>
      map_of (downloadsData (handleRemoveRepo r s)) k = map_of (downloadsData s) k \<and>
      map_of (stargazersData (handleRemoveRepo r s)) k = map_of (stargazersData s) k \<and>
      map_of (issuesData (handleRemoveRepo r s)) k = map_of (issuesData s) k \<and>
      find (\<lambda>d. identifier d = k) (repoSummaryData (handleRemoveRepo r s)) =
        find (\<lambda>d. identifier d = k) (repoSummaryData s)) \<and>
   map_of (releasesData (handleRemoveRepo r s)) (repoIdentifier r) = None \<and>
   map_of (downloadsData (handleRemoveRepo r s)) (repoIdentifier r) = None \<and>
   map_of (stargazersData (handleRemoveRepo r s)) (repoIdentifier r) = None \<and>
   map_of (issuesData (handleRemoveRepo r s)) (repoIdentifier r) = None \<and>
   repoIdentifier r \<notin> set (repoOrder (handleRemoveRepo r s)) \<and>
   repoIdentifier r \<notin> repoIdentifier ` set (repos (handleRemoveRepo r s)) \<and>
   repoIdentifier r \<notin> identifier ` set (repoSummaryData (handleRemoveRepo r s))"
proof -
  have f: "find (\<lambda>d. identifier d = k) (filter (\<lambda>d. identifier d \<noteq> i) ds) =
           find (\<lambda>d. identifier d = k) ds" if "k \<noteq> i" for k i and ds :: "RepoSummary list"
    using that by (induction ds) auto
  have "repoIdentifier r \<notin> repoIdentifier ` {x \<in> set (repos s). repoIdentifier x \<noteq> repoIdentifier r}"
    and "repoIdentifier r \<notin> identifier ` {x \<in> set (repoSummaryData s). identifier x \<noteq> repoIdentifier r}"
    by auto
  then show ?thesis
    by (simp add: handleRemoveRepo_def Let_def updateURL_def filter_map comp_def delete_filter
        map_of_filter_other map_of_filter_same f)
qed

theorem remove_repo_frame_witness:
  "repoOrder
     (handleRemoveRepo \<lparr>username = ''a'', repository = ''x''\<rparr>
        (initial\<lparr>repos := [\<lparr>username = ''a'', repository = ''x''\<rparr>, \<lparr>username = ''b'', repository = ''y''\<rparr>],
                 repoOrder := [''b/y'', ''a/x''],
                 stargazersData := [(''a/x'', []), (''b/y'', [\<lparr>starred_at = 3\<rparr>])]\<rparr>)) = [''b/y''] \<and>
   map_of
     (stargazersData
        (handleRemoveRepo \<lparr>username = ''a'', repository = ''x''\<rparr>
           (initial\<lparr>repos := [\<lparr>username = ''a'', repository = ''x''\<rparr>, \<lparr>username = ''b'', repository = ''y''\<rparr>],
                    repoOrder := [''b/y'', ''a/x''],
                    stargazersData := [(''a/x'', []), (''b/y'', [\<lparr>starred_at = 3\<rparr>])]\<rparr>))) ''b/y'' =
     Some [\<lparr>starred_at = 3\<rparr>]"
  using remove_repo_frame
    [of "\<lparr>username = ''a'', repository = ''x''\<rparr>"
        "initial\<lparr>repos := [\<lparr>username = ''a'', repository = ''x''\<rparr>, \<lparr>username = ''b'', repository = ''y''\<rparr>],
                 repoOrder := [''b/y'', ''a/x''],
                 stargazersData := [(''a/x'', []), (''b/y'', [\<lparr>starred_at = 3\<rparr>])]\<rparr>"]
  by (simp add: initial_def repoIdentifier_def)

text \<open>
  C8, as the code has it. Without a summary row nothing is exported. Otherwise the file
  is the header row \<open>Repository,Stars,Latest Version,Last Update,Size (KB),Total Downloads\<close>
  and then, in the display order, one row for every identifier of the display order that
  has a summary row (for every identifier, when each has one). When no last-update text
  holds a comma, a double quote or a newline, every row is its six fields under the CSV
  rule: a field with one of these characters wrapped in double quotes with its quotes
  doubled, any other field unchanged. \<open>a,b\<close> becomes \<open>"a,b"\<close> and \<open>a"b\<close> becomes
  \<open>"a""b"\<close>.
\<close>

theorem csv_export_rows:
  "(repoSummaryData s = [] \<longrightarrow> handleExportCsv s = None) \<and>
   (repoSummaryData s \<noteq> [] \<and> (\<forall>d \<in> set (repoSummaryData s). \<not> needsQuoting (lastUpdate d)) \<longrightarrow>
      handleExportCsv s =
        Some (join [CHR 0x0A]
          (''Repository,Stars,Latest Version,Last Update,Size (KB),Total Downloads'' #
           map specRow
             (List.map_filter (\<lambda>i. find (\<lambda>d. identifier d = i) (repoSummaryData s)) (repoOrder s))))) \<and>
   map identifier
     (List.map_filter (\<lambda>i. find (\<lambda>d. identifier d = i) (repoSummaryData s)) (repoOrder s)) =
     filter (\<lambda>i. i \<in> identifier ` set (repoSummaryData s)) (repoOrder s) \<and>
   (set (repoOrder s) \<subseteq> identifier ` set (repoSummaryData s) \<longrightarrow>
      map identifier
        (List.map_filter (\<lambda>i. find (\<lambda>d. identifier d = i) (repoSummaryData s)) (repoOrder s)) =
      repoOrder s) \<and>
   escapeCsv ''a,b'' = [CHR 0x22] @ ''a,b'' @ [CHR 0x22] \<and>
   escapeCsv (''a'' @ [CHR 0x22] @ ''b'') =
     [CHR 0x22] @ ''a'' @ [CHR 0x22, CHR 0x22] @ ''b'' @ [CHR 0x22]"
proof -
  let ?rows = "List.map_filter (\<lambda>i. find (\<lambda>d. identifier d = i) (repoSummaryData s)) (repoOrder s)"
  have hdr: "join '','' csvHeaders =
      ''Repository,Stars,Latest Version,Last Update,Size (KB),Total Downloads''"
    by (simp add: csvHeaders_def)
  have a: "repoSummaryData s = [] \<longrightarrow> handleExportCsv s = None"
    by (simp add: handleExportCsv_def)
  have b: "repoSummaryData s \<noteq> [] \<and> (\<forall>d \<in> set (repoSummaryData s). \<not> needsQuoting (lastUpdate d)) \<longrightarrow>
      handleExportCsv s =
        Some (join [CHR 0x0A]
          (''Repository,Stars,Latest Version,Last Update,Size (KB),Total Downloads'' # map specRow ?rows))"
  proof
    assume h: "repoSummaryData s \<noteq> [] \<and> (\<forall>d \<in> set (repoSummaryData s). \<not> needsQuoting (lastUpdate d))"
    have "map csvRow ?rows = map specRow ?rows"
      using h rows_members [of "repoSummaryData s" "repoOrder s"]
      by (intro map_cong refl csvRow_specRow) auto
    with h show "handleExportCsv s =
        Some (join [CHR 0x0A]
          (''Repository,Stars,Latest Version,Last Update,Size (KB),Total Downloads'' # map specRow ?rows))"
      by (simp add: handleExportCsv_def Let_def hdr del: map_eq_conv)
  qed
  have c: "map identifier ?rows = filter (\<lambda>i. i \<in> identifier ` set (repoSummaryData s)) (repoOrder s)"
    by (rule rows_in_order)
  have d: "set (repoOrder s) \<subseteq> identifier ` set (repoSummaryData s) \<longrightarrow> map identifier ?rows = repoOrder s"
    unfolding c by (auto intro: filter_True)
  have e: "escapeCsv ''a,b'' = [CHR 0x22] @ ''a,b'' @ [CHR 0x22]"
    by (simp add: escapeCsv_def)
  have f: "escapeCsv (''a'' @ [CHR 0x22] @ ''b'') =
     [CHR 0x22] @ ''a'' @ [CHR 0x22, CHR 0x22] @ ''b'' @ [CHR 0x22]"
    by (simp add: escapeCsv_def)
  from a b c d e f show ?thesis by (intro conjI)
qed

theorem csv_export_rows_witness:
  "handleExportCsv twoRepos =
     Some (''Repository,Stars,Latest Version,Last Update,Size (KB),Total Downloads'' @ [CHR 0x0A] @
           ''a/x,1,common.notAvailable,2024-01-01T00:00:00Z,1,0'' @ [CHR 0x0A] @
           ''b/y,1,common.notAvailable,2024-01-01T00:00:00Z,1,0'')"
  using csv_export_rows [of twoRepos]
  by (simp add: twoRepos_eval initial_def needsQuoting_def List.map_filter_simps specRow_def
      csvField_def showNat.simps)

text \<open>
  C8 as stated fails: the initial state, which has no summary row, exports nothing, not
  even the header row; and where the display order holds \<open>b/y\<close> without a summary row,
  the file has no row for it.
\<close>

theorem csv_export_counterexample:
  "handleExportCsv initial = None \<and>
   repoOrder staleBatch = [''a/x'', ''b/y''] \<and>
   handleExportCsv staleBatch =
     Some (''Repository,Stars,Latest Version,Last Update,Size (KB),Total Downloads'' @ [CHR 0x0A] @
           ''a/x,1,common.notAvailable,2024-01-01T00:00:00Z,1,0'')"
  by (simp add: staleBatch_eval initial_def handleExportCsv_def Let_def List.map_filter_simps
      csvHeaders_def csvRow_def escapeCsv_def showNat.simps)

text \<open>
  C2, as the code has it. In every state in which each primary batch fetch has been
  committed (every state reached by add-repo, remove-repo, sort, manual reorder, clear,
  save-set, load-set and a change of the credential, each batch settling without a
  rejected request before the next intent), the display order holds exactly the
  identifiers of \<open>_repos\<close>, each as often as \<open>_repos\<close> does: none lost, none duplicated; and
  so do the summary rows.
\<close>

theorem committed_order_matches_repos:
  assumes "committed t s"
  shows "mset (repoOrder s) = mset (map repoIdentifier (repos s)) \<and>
         set (repoOrder s) = set (map repoIdentifier (repos s)) \<and>
         distinct (repoOrder s) = distinct (map repoIdentifier (repos s)) \<and>
         mset (map identifier (repoSummaryData s)) = mset (repoOrder s)"
proof -
  from committed_aligned [OF assms]
  have m: "mset (repoOrder s) = mset (map repoIdentifier (repos s))"
    and r: "mset (map identifier (repoSummaryData s)) = mset (map repoIdentifier (repos s))"
    by (simp_all add: aligned_def)
  from m have "set (repoOrder s) = set (map repoIdentifier (repos s))" by (rule mset_eq_setD)
  moreover from m have "distinct (repoOrder s) = distinct (map repoIdentifier (repos s))"
    by (rule mset_eq_imp_distinct_iff)
  ultimately show ?thesis using m r by simp
qed

theorem committed_order_matches_repos_witness:
  "mset (repoOrder reordered) = mset (map repoIdentifier (repos reordered)) \<and>
   repoOrder reordered = [''b/y'', ''a/x''] \<and>
   map repoIdentifier (repos reordered) = [''a/x'', ''b/y'']"
  using committed_order_matches_repos [OF committed_reordered]
  by (simp add: reordered_eval twoRepos_eval initial_def repoIdentifier_def)

text \<open>
  C2 as stated fails after a failed batch fetch: \<open>a/x\<close> is added to the empty engine and
  its batch is rejected; \<open>_repos\<close> holds \<open>a/x\<close> and the display order is empty.
\<close>

theorem order_differs_after_failed_add:
  "map repoIdentifier (repos failedAdd) = [''a/x''] \<and> repoOrder failedAdd = [] \<and>
   set (repoOrder failedAdd) \<noteq> set (map repoIdentifier (repos failedAdd))"
  by (simp add: failedAdd_eval initial_def repoIdentifier_def)

text \<open>
  C6, as the code has it. save-set stores the order of \<open>_repos\<close>. After save-set, clear-all
  and load-set under one name, the batch of the load fulfilled, \<open>_repos\<close> is what it was
  at the moment of saving and the display order is the order of \<open>_repos\<close> at that moment,
  provided that every owner and repository name is non-empty and has no \<open>/\<close>. This is the
  display order of the moment of saving when that was the order of \<open>_repos\<close>.
\<close>

theorem save_clear_load_restores_repo_order:
  assumes "setName \<noteq> ''''"
    and "\<forall>r \<in> set (repos s). plainName (username r) \<and> plainName (repository r)"
    and "length responses = length (repos s)"
    and "\<not> list_ex requestFailed responses"
  shows "map_of (savedSets (handleSaveSetConfirm setName s)) setName =
           Some (map repoIdentifier (repos s)) \<and>
         snd (handleLoadSet setName (clearAction (handleSaveSetConfirm setName s))) =
           [FetchBatch (repos s)] \<and>
         repos (saveClearLoad t setName responses s) = repos s \<and>
         repoOrder (saveClearLoad t setName responses s) = map repoIdentifier (repos s) \<and>
         (repoOrder s = map repoIdentifier (repos s) \<longrightarrow>
            repoOrder (saveClearLoad t setName responses s) = repoOrder s)"
proof -
  let ?l = "handleLoadSet setName (clearAction (handleSaveSetConfirm setName s))"
  have l: "?l = (updateURL ((clearAction (handleSaveSetConfirm setName s))
            \<lparr>repos := repos s, loading := True, error := ''''\<rparr>), [FetchBatch (repos s)])"
    by (rule load_after_save [OF assms(1,2)])
  then have r: "repos (fst ?l) = repos s" by (simp add: updateURL_def)
  have "repos (saveClearLoad t setName responses s) = repos (fst ?l) \<and>
        repoOrder (saveClearLoad t setName responses s) = map repoIdentifier (repos (fst ?l))"
    unfolding saveClearLoad_def
    using settled_aligned [of responses "fst ?l" t] assms(3,4) r by simp
  moreover have "map_of (savedSets (handleSaveSetConfirm setName s)) setName =
           Some (map repoIdentifier (repos s))"
    using assms(1) by (simp add: handleSaveSetConfirm_def update_conv')
  ultimately show ?thesis using l r by simp
qed

theorem save_clear_load_restores_repo_order_witness:
  "repos (saveClearLoad (\<lambda>k. k) ''X'' [okResponse, okResponse] reordered) = repos reordered \<and>
   repoOrder (saveClearLoad (\<lambda>k. k) ''X'' [okResponse, okResponse] reordered) = [''a/x'', ''b/y'']"
  using save_clear_load_restores_repo_order
    [of "''X''" reordered "[okResponse, okResponse]" "\<lambda>k. k"]
  by (simp add: reordered_eval twoRepos_eval initial_def plainName_def requestFailed_def
      okResponse_def repoIdentifier_def)

text \<open>
  C6 as stated fails for a manual order: with \<open>b/y\<close> dragged in front of \<open>a/x\<close>, the
  sequence save-set, clear-all, load-set gives back the order \<open>a/x\<close>, \<open>b/y\<close>.
\<close>

theorem manual_order_not_restored:
  "repoOrder reordered = [''b/y'', ''a/x''] \<and>
   sortKey reordered = Manual \<and>
   repoOrder (saveClearLoad (\<lambda>k. k) ''X'' [okResponse, okResponse] reordered) = [''a/x'', ''b/y'']"
  by (simp add: saveClearLoad_def reordered_eval twoRepos_eval initial_def
      handleSaveSetConfirm_def clearAction_def updateURL_def handleLoadSet_def
      fetchDataForRepos_start_def fetchDataForRepos_settled_def okResponse_def pairAll_def
      addResult_def published_def sumDownloads_def repoIdentifier_def parseRepo_def
      List.map_filter_simps)

text \<open>
  C9, as the code has it. A sort by stars (by open issues) with a credential requests
  the star events (issue events) of exactly the repositories that have no entry in the
  cache. The results are merged after all the fetches have settled: when every fetch is
  fulfilled, each requested identifier gets its result and every other entry stays;
  when one is rejected, nothing is merged and the failure message is set.
\<close>

theorem supplemental_fetch_after_barrier:
  "(githubToken s \<noteq> '''' \<longrightarrow>
      snd (handleRequestSort t Stars s) =
        (if missingFrom (stargazersData s) (repos s) = [] then []
         else [FetchStargazers (missingFrom (stargazersData s) (repos s))]) \<and>
      snd (handleRequestSort t OpenIssues s) =
        (if missingFrom (issuesData s) (repos s) = [] then []
         else [FetchIssues (missingFrom (issuesData s) (repos s))])) \<and>
   set (missingFrom (stargazersData s) (repos s)) =
     {r \<in> set (repos s). map_of (stargazersData s) (repoIdentifier r) = None} \<and>
   set (missingFrom (issuesData s) (repos s)) =
     {r \<in> set (repos s). map_of (issuesData s) (repoIdentifier r) = None} \<and>
   (list_ex isl starResults \<longrightarrow>
      stargazers_settled t rs starResults s =
        s\<lparr>error := t ''errors.fetchStarHistory'', loading := False\<rparr>) \<and>
   (list_ex isl issueResults \<longrightarrow>
      issues_settled t rs issueResults s =
        s\<lparr>error := t ''errors.fetchIssueHistory'', loading := False\<rparr>) \<and>
   (\<not> list_ex isl starResults \<and> length starResults = length rs \<and> distinct (map repoIdentifier rs) \<longrightarrow>
      (\<forall>i < length rs.
         map_of (stargazersData (stargazers_settled t rs starResults s)) (repoIdentifier (rs ! i)) =
           Some (projr (starResults ! i))) \<and>
      (\<forall>k. k \<notin> repoIdentifier ` set rs \<longrightarrow>
         map_of (stargazersData (stargazers_settled t rs starResults s)) k =
           map_of (stargazersData s) k)) \<and>
   (\<not> list_ex isl issueResults \<and> length issueResults = length rs \<and> distinct (map repoIdentifier rs) \<longrightarrow>
      (\<forall>i < length rs.
         map_of (issuesData (issues_settled t rs issueResults s)) (repoIdentifier (rs ! i)) =
           Some (projr (issueResults ! i))) \<and>
      (\<forall>k. k \<notin> repoIdentifier ` set rs \<longrightarrow>
         map_of (issuesData (issues_settled t rs issueResults s)) k = map_of (issuesData s) k))"
proof -
  have a: "githubToken s \<noteq> '''' \<longrightarrow>
      snd (handleRequestSort t Stars s) =
        (if missingFrom (stargazersData s) (repos s) = [] then []
         else [FetchStargazers (missingFrom (stargazersData s) (repos s))]) \<and>
      snd (handleRequestSort t OpenIssues s) =
        (if missingFrom (issuesData s) (repos s) = [] then []
         else [FetchIssues (missingFrom (issuesData s) (repos s))])"
    using sort_requests_stars [of s t] sort_requests_issues [of s t] by simp
  have b: "list_ex isl starResults \<longrightarrow>
      stargazers_settled t rs starResults s =
        s\<lparr>error := t ''errors.fetchStarHistory'', loading := False\<rparr>"
    using stars_settled_rejected by blast
  have c: "list_ex isl issueResults \<longrightarrow>
      issues_settled t rs issueResults s =
        s\<lparr>error := t ''errors.fetchIssueHistory'', loading := False\<rparr>"
    using issues_settled_rejected by blast
  have d: "\<not> list_ex isl starResults \<and> length starResults = length rs \<and> distinct (map repoIdentifier rs) \<longrightarrow>
      (\<forall>i < length rs.
         map_of (stargazersData (stargazers_settled t rs starResults s)) (repoIdentifier (rs ! i)) =
           Some (projr (starResults ! i))) \<and>
      (\<forall>k. k \<notin> repoIdentifier ` set rs \<longrightarrow>
         map_of (stargazersData (stargazers_settled t rs starResults s)) k =
           map_of (stargazersData s) k)"
    by (simp add: stars_settled_fulfilled mergeResults_new mergeResults_other)
  have e: "\<not> list_ex isl issueResults \<and> length issueResults = length rs \<and> distinct (map repoIdentifier rs) \<longrightarrow>
      (\<forall>i < length rs.
         map_of (issuesData (issues_settled t rs issueResults s)) (repoIdentifier (rs ! i)) =
           Some (projr (issueResults ! i))) \<and>
      (\<forall>k. k \<notin> repoIdentifier ` set rs \<longrightarrow>
         map_of (issuesData (issues_settled t rs issueResults s)) k = map_of (issuesData s) k)"
    by (simp add: issues_settled_fulfilled mergeResults_new mergeResults_other)
  from a b c d e show ?thesis by (simp only: missingFrom_set simp_thms)
qed

theorem supplemental_fetch_after_barrier_witness:
  "snd (handleRequestSort (\<lambda>k. k) Stars (withToken\<lparr>stargazersData := [(''a/x'', [])]\<rparr>)) =
     [FetchStargazers [\<lparr>username = ''b'', repository = ''y''\<rparr>]] \<and>
   map_of
     (stargazersData
        (stargazers_settled (\<lambda>k. k) [\<lparr>username = ''b'', repository = ''y''\<rparr>] [Inr [\<lparr>starred_at = 5\<rparr>]]
           (withToken\<lparr>stargazersData := [(''a/x'', [])]\<rparr>))) ''b/y'' = Some [\<lparr>starred_at = 5\<rparr>] \<and>
   map_of
     (stargazersData
        (stargazers_settled (\<lambda>k. k) [\<lparr>username = ''b'', repository = ''y''\<rparr>] [Inr [\<lparr>starred_at = 5\<rparr>]]
           (withToken\<lparr>stargazersData := [(''a/x'', [])]\<rparr>))) ''a/x'' = Some []"
  using supplemental_fetch_after_barrier
    [where s = "withToken\<lparr>stargazersData := [(''a/x'', [])]\<rparr>" and t = "\<lambda>k. k"
       and rs = "[\<lparr>username = ''b'', repository = ''y''\<rparr>]"
       and starResults = "[Inr [\<lparr>starred_at = 5\<rparr>]]" and issueResults = "[]"]
  by (simp add: withToken_eval twoRepos_eval initial_def missingFrom_def repoIdentifier_def)

text \<open>
  C9 as stated fails: the star fetch of \<open>a/x\<close> has completed and that of \<open>b/y\<close> is
  rejected; the completed result of \<open>a/x\<close> is not in the cache.
\<close>

theorem completed_star_fetch_not_merged:
  "snd (handleRequestSort (\<lambda>k. k) Stars withToken) =
     [FetchStargazers [\<lparr>username = ''a'', repository = ''x''\<rparr>, \<lparr>username = ''b'', repository = ''y''\<rparr>]] \<and>
   stargazersData
     (stargazers_settled (\<lambda>k. k)
        [\<lparr>username = ''a'', repository = ''x''\<rparr>, \<lparr>username = ''b'', repository = ''y''\<rparr>]
        [Inr [\<lparr>starred_at = 5\<rparr>], Inl (HttpError 403)]
        (fst (handleRequestSort (\<lambda>k. k) Stars withToken))) = [] \<and>
   error
     (stargazers_settled (\<lambda>k. k)
        [\<lparr>username = ''a'', repository = ''x''\<rparr>, \<lparr>username = ''b'', repository = ''y''\<rparr>]
        [Inr [\<lparr>starred_at = 5\<rparr>], Inl (HttpError 403)]
        (fst (handleRequestSort (\<lambda>k. k) Stars withToken))) = ''errors.fetchStarHistory''"
  by (simp add: withToken_eval twoRepos_eval initial_def handleRequestSort_def Let_def
      updateURL_def missingFrom_def repoIdentifier_def stargazers_settled_def)

end
